theory Spec2Isabelle
  imports Main "HOL-Library.Word" "HOL-Library.AList" "HOL-Library.Char_ord"
    "HOL-Library.List_Lexorder" "HOL-Library.Sublist"
begin

unbundle bit_operations_syntax

section \<open>ArcUnpack: the conversion script \<^verbatim>\<open>arc_unpack.py\<close>\<close>

text \<open>
  The script is one sequential batch run: it extracts the pack files of a romfs directory
  into a staging tree, converts the song list and the pack list into Level and Pack records
  (copying the assets of each record into a working directory), moves every working file
  into a flat store under a name made of its SHA-1 digest, and hands all records to the
  LiteDB helper process.

  Python's exceptions are values of \<open>error\<close>; nothing in the script catches one, so the
  first error ends the run. Strings are \<open>char list\<close>s, integers of the JSON documents are
  \<open>int\<close>, file contents are lists of bytes.
\<close>

datatype error =
    FileNotFoundError
  | FileExistsError
  | NotADirectoryError
  | IsADirectoryError
  | SameFileError
  | OSError
  | OverflowError
  | MemoryError
  | ValueError
  | KeyError
  | IndexError
  | JSONDecodeError
  | SystemExit

type_synonym bytes = "8 word list"

subsection \<open>Paths (\<^verbatim>\<open>pathlib.PurePosixPath\<close>)\<close>

text \<open>
  A path is the list of its parts, as \<^verbatim>\<open>Path.parts\<close> gives them: an absolute path starts
  with the part \<^verbatim>\<open>/\<close> (or \<^verbatim>\<open>//\<close>), the path \<^verbatim>\<open>.\<close> has no part. Joining parses the right
  operand: empty components and \<^verbatim>\<open>.\<close> are dropped, and an operand with a root replaces
  what is on its left. A \<^verbatim>\<open>..\<close> component stays a part like any other, as in pathlib.
\<close>

type_synonym path = "string list"

fun split_sep :: "string \<Rightarrow> string list" where
  "split_sep [] = [[]]"
| "split_sep (c # cs) =
     (if c = CHR ''/'' then [] # split_sep cs
      else (case split_sep cs of [] \<Rightarrow> [[c]] | x # xs \<Rightarrow> (c # x) # xs))"

definition splitroot :: "string \<Rightarrow> string \<times> string" where
  "splitroot part =
     (if part \<noteq> [] \<and> hd part = CHR ''/'' then
        (let stripped = dropWhile (\<lambda>c. c = CHR ''/'') part
         in if length part - length stripped = 2 then (''//'', stripped) else (''/'', stripped))
      else ('''', part))"

definition parse_parts :: "string \<Rightarrow> string \<times> string list" where
  "parse_parts s =
     (case splitroot s of (root, rel) \<Rightarrow>
        (root, filter (\<lambda>x. x \<noteq> [] \<and> x \<noteq> ''.'') (split_sep rel)))"

definition joinpath :: "path \<Rightarrow> string \<Rightarrow> path" where
  "joinpath p s =
     (case parse_parts s of (root, xs) \<Rightarrow> if root \<noteq> [] then root # xs else p @ xs)"

definition is_anchor :: "path \<Rightarrow> bool" where
  "is_anchor p = (p = [''/''] \<or> p = [''//''])"

definition name :: "path \<Rightarrow> string" where
  "name p = (if p = [] \<or> is_anchor p then [] else last p)"

definition parent :: "path \<Rightarrow> path" where
  "parent p = (if is_anchor p then p else butlast p)"

text \<open>\<^verbatim>\<open>Path.suffix\<close> (here \<open>path_suffix\<close>): the part of the name from its last dot on,
  when that dot is neither the first nor the last character of the name.\<close>

definition suffix_of :: "string \<Rightarrow> string" where
  "suffix_of nm =
     (let r = takeWhile (\<lambda>c. c \<noteq> CHR ''.'') (rev nm)
      in if CHR ''.'' \<in> set nm \<and> r \<noteq> [] \<and> length r + 1 < length nm
         then drop (length nm - length r - 1) nm else [])"

definition path_suffix :: "path \<Rightarrow> string" where
  "path_suffix p = suffix_of (name p)"

definition with_suffix :: "path \<Rightarrow> string \<Rightarrow> error + path" where
  "with_suffix p s =
     (if name p = [] then Inl ValueError
      else Inr (butlast p @ [take (length (name p) - length (path_suffix p)) (name p) @ s]))"

fun intercalate :: "string \<Rightarrow> string list \<Rightarrow> string" where
  "intercalate sep [] = []"
| "intercalate sep [x] = x"
| "intercalate sep (x # y # ys) = x @ sep @ intercalate sep (y # ys)"

definition as_posix :: "path \<Rightarrow> string" where
  "as_posix p =
     (case p of [] \<Rightarrow> ''.''
      | r # ps \<Rightarrow> if is_anchor [r] then r @ intercalate ''/'' ps else intercalate ''/'' p)"

definition relative_to :: "path \<Rightarrow> path \<Rightarrow> error + path" where
  "relative_to p base =
     (if prefix base p then Inr (drop (length base) p) else Inl ValueError)"

subsection \<open>The file system\<close>

text \<open>
  The file system is a table from paths to nodes, a regular file with its bytes or a
  directory. The current directory and the root always exist. Paths are compared as lists of
  parts: symbolic links, \<^verbatim>\<open>..\<close> resolution, permissions and a full disk are outside this
  model. The order of the table stands for the order in which the operating system lists a
  directory.
\<close>

datatype node = File bytes | Dir

type_synonym fs = "(path \<times> node) list"

definition lookup :: "fs \<Rightarrow> path \<Rightarrow> node option" where
  "lookup fs p = (if p = [] \<or> is_anchor p then Some Dir else map_of fs p)"

definition exists :: "fs \<Rightarrow> path \<Rightarrow> bool" where
  "exists fs p = (lookup fs p \<noteq> None)"

definition is_file :: "fs \<Rightarrow> path \<Rightarrow> bool" where
  "is_file fs p = (case lookup fs p of Some (File _) \<Rightarrow> True | _ \<Rightarrow> False)"

definition is_dir :: "fs \<Rightarrow> path \<Rightarrow> bool" where
  "is_dir fs p = (lookup fs p = Some Dir)"

text \<open>\<^verbatim>\<open>Path.mkdir(parents=True, exist_ok=True)\<close>: creates the directory and every missing
  ancestor; fails when the path or an ancestor is a regular file.\<close>

fun mkdirs :: "fs \<Rightarrow> path list \<Rightarrow> error + fs" where
  "mkdirs fs [] = Inr fs"
| "mkdirs fs (d # ds) =
     (case lookup fs d of
        Some (File _) \<Rightarrow> Inl (if ds = [] then FileExistsError else NotADirectoryError)
      | Some Dir \<Rightarrow> mkdirs fs ds
      | None \<Rightarrow> mkdirs (fs @ [(d, Dir)]) ds)"

definition mkdir :: "fs \<Rightarrow> path \<Rightarrow> error + fs" where
  "mkdir fs p = mkdirs fs (map (\<lambda>k. take k p) [1..<Suc (length p)])"

text \<open>\<^verbatim>\<open>open(p, 'rb').read()\<close> and \<^verbatim>\<open>open(p, 'wb')\<close>, which creates the file or empties it.\<close>

definition read_file :: "fs \<Rightarrow> path \<Rightarrow> error + bytes" where
  "read_file fs p =
     (case lookup fs p of
        None \<Rightarrow> Inl FileNotFoundError
      | Some Dir \<Rightarrow> Inl IsADirectoryError
      | Some (File b) \<Rightarrow> Inr b)"

definition open_wb :: "fs \<Rightarrow> path \<Rightarrow> error + fs" where
  "open_wb fs p =
     (case lookup fs (parent p) of
        None \<Rightarrow> Inl FileNotFoundError
      | Some (File _) \<Rightarrow> Inl NotADirectoryError
      | Some Dir \<Rightarrow>
          (case lookup fs p of
             Some Dir \<Rightarrow> Inl IsADirectoryError
           | _ \<Rightarrow> Inr (AList.update p (File []) fs)))"

definition write_file :: "fs \<Rightarrow> path \<Rightarrow> bytes \<Rightarrow> fs" where
  "write_file fs p b = AList.update p (File b) fs"

text \<open>\<^verbatim>\<open>shutil.copyfile(src, dst)\<close>.\<close>

definition copyfile :: "fs \<Rightarrow> path \<Rightarrow> path \<Rightarrow> error + fs" where
  "copyfile fs src dst =
     (if src = dst \<and> exists fs src then Inl SameFileError
      else case read_file fs src of
        Inl e \<Rightarrow> Inl e
      | Inr b \<Rightarrow>
          (case open_wb fs dst of
             Inl e \<Rightarrow> Inl e
           | Inr fs' \<Rightarrow> Inr (write_file fs' dst b)))"

text \<open>\<^verbatim>\<open>Path.glob\<close>: \<^verbatim>\<open>'*.pack'\<close> lists the entries of a directory whose name ends in
  \<^verbatim>\<open>.pack\<close>; \<^verbatim>\<open>'**/*'\<close> lists everything below a directory. A path that is no directory
  lists nothing.\<close>

definition entries :: "fs \<Rightarrow> path list" where
  "entries fs = remdups (map fst fs)"

definition glob_pack :: "fs \<Rightarrow> path \<Rightarrow> path list" where
  "glob_pack fs d =
     (if is_dir fs d
      then filter (\<lambda>p. p \<noteq> [] \<and> butlast p = d \<and> suffix ''.pack'' (last p)) (entries fs)
      else [])"

definition glob_all :: "fs \<Rightarrow> path \<Rightarrow> path list" where
  "glob_all fs d =
     (if is_dir fs d then filter (\<lambda>p. strict_prefix d p) (entries fs) else [])"

text \<open>\<^verbatim>\<open>shutil.rmtree\<close> and \<^verbatim>\<open>Path.rename\<close>.\<close>

definition rmtree :: "fs \<Rightarrow> path \<Rightarrow> error + fs" where
  "rmtree fs d =
     (case lookup fs d of
        None \<Rightarrow> Inl FileNotFoundError
      | Some (File _) \<Rightarrow> Inl NotADirectoryError
      | Some Dir \<Rightarrow> Inr (filter (\<lambda>(p, n). \<not> prefix d p) fs))"

definition rename :: "fs \<Rightarrow> path \<Rightarrow> path \<Rightarrow> error + fs" where
  "rename fs src dst =
     (case lookup fs src of
        None \<Rightarrow> Inl FileNotFoundError
      | Some n \<Rightarrow>
          (if lookup fs (parent dst) \<noteq> Some Dir then Inl FileNotFoundError
           else Inr (AList.update dst n (AList.delete src fs))))"

subsection \<open>Python values\<close>

text \<open>Results are threaded with \<open>bind\<close>: the first error ends the computation.\<close>

definition bind :: "error + 'a \<Rightarrow> ('a \<Rightarrow> error + 'b) \<Rightarrow> error + 'b" where
  "bind r f = (case r of Inl e \<Rightarrow> Inl e | Inr x \<Rightarrow> f x)"

text \<open>\<^verbatim>\<open>str(n)\<close> of an integer, as the f-strings of the script use it.\<close>

definition digit_char :: "nat \<Rightarrow> char" where
  "digit_char n = ''0123456789'' ! n"

fun nat_digits :: "nat \<Rightarrow> string" where
  "nat_digits n =
     (if n < 10 then [digit_char n]
      else nat_digits (n div 10) @ [digit_char (n mod 10)])"

declare nat_digits.simps [simp del]

definition str_int :: "int \<Rightarrow> string" where
  "str_int i = (if i < 0 then CHR ''-'' # nat_digits (nat (- i)) else nat_digits (nat i))"

text \<open>\<^verbatim>\<open>float(n)\<close> of an integer raises OverflowError when \<open>n\<close> rounds to no finite
  double. The value of the double is not modelled: \<open>Float n\<close> stands for the double nearest
  to \<open>n\<close>.\<close>

datatype pyfloat = Float int

definition py_float :: "int \<Rightarrow> error + pyfloat" where
  "py_float n =
     (if \<bar>n\<bar> < 2 ^ 1024 - 2 ^ 970 then Inr (Float n) else Inl OverflowError)"

text \<open>\<^verbatim>\<open>xs[i]\<close>: a negative index counts from the end of the list.\<close>

definition py_index :: "'a list \<Rightarrow> int \<Rightarrow> error + 'a" where
  "py_index xs i =
     (if 0 \<le> i \<and> i < int (length xs) then Inr (xs ! nat i)
      else if i < 0 \<and> - int (length xs) \<le> i then Inr (xs ! nat (int (length xs) + i))
      else Inl IndexError)"

text \<open>\<^verbatim>\<open>d[k]\<close> on a dictionary.\<close>

definition py_getitem :: "('k \<rightharpoonup> 'v) \<Rightarrow> 'k \<Rightarrow> error + 'v" where
  "py_getitem d k = (case d k of None \<Rightarrow> Inl KeyError | Some v \<Rightarrow> Inr v)"

text \<open>\<^verbatim>\<open>s.replace(old, new)\<close> for a one-character \<open>old\<close>.\<close>

definition replace :: "string \<Rightarrow> char \<Rightarrow> string \<Rightarrow> string" where
  "replace s old new = concat (map (\<lambda>c. if c = old then new else [c]) s)"

subsection \<open>Extracting the romfs (lines 119 to 146)\<close>

text \<open>
  The index document of a pack, after \<^verbatim>\<open>json.load\<close>: the list under \<^verbatim>\<open>Groups\<close>. Decoding
  JSON is the library's work and a parameter of the model: \<open>json_index\<close> maps the bytes of an
  index file to its groups, and to \<open>None\<close> when they are no JSON document of this shape.
\<close>

record entry =
  OriginalFilename :: string
  Offset :: int
  Length :: int

record group =
  Name :: string
  OrderedEntries :: "entry list"

definition extracted_romfs_path :: path where
  "extracted_romfs_path = [''extracted_romfs'']"

definition final_path :: path where
  "final_path = [''final'']"

text \<open>
  The pack is read through the buffered binary file object that \<^verbatim>\<open>open(pack_path, 'rb')\<close>
  returns (CPython's \<^verbatim>\<open>BufferedReader\<close>), and it stays open while the files of its entries
  are written. What the platform decides is collected in \<open>platform\<close>: the size of the buffer
  of the file object (the block size of the file, or 8192), the largest offset the file
  system accepts in a seek, and the largest size of a byte string that can be allocated.
\<close>

record platform =
  buffer_size :: nat
  max_offset :: int
  max_alloc :: int

text \<open>
  The state of the file object: the buffer holds the bytes that were read at the file offsets
  from \<open>buffer_start\<close> on, the raw file is positioned behind them, and \<open>position\<close> is the file
  offset of the next byte to be read. The object caches the raw position and does not
  update the cache in \<^verbatim>\<open>read(-1)\<close>: \<open>skew\<close> is what the cache is behind by.
\<close>

record reader =
  buffer_start :: nat
  buffer :: bytes
  position :: nat
  skew :: nat

definition open_rb :: "fs \<Rightarrow> path \<Rightarrow> error + reader" where
  "open_rb fs p =
     (case lookup fs p of
        None \<Rightarrow> Inl FileNotFoundError
      | Some Dir \<Rightarrow> Inl IsADirectoryError
      | Some (File b) \<Rightarrow> Inr \<lparr>buffer_start = 0, buffer = [], position = 0, skew = 0\<rparr>)"

text \<open>The bytes a file has now; an open file object reads from these.\<close>

definition contents :: "fs \<Rightarrow> path \<Rightarrow> bytes" where
  "contents fs p = (case lookup fs p of Some (File b) \<Rightarrow> b | _ \<Rightarrow> [])"

text \<open>
  \<^verbatim>\<open>pack.seek(offset)\<close>. An offset that does not fit 64 bits is a ValueError. While unread
  bytes are buffered, a seek to an offset inside the buffer (as the cache sees it) only moves
  the position. Every other seek goes to the file, which refuses a negative offset and one
  above the limit of the file system, and empties the buffer. Seeking past the end of the
  file is allowed.
\<close>

definition seek :: "platform \<Rightarrow> reader \<Rightarrow> int \<Rightarrow> error + reader" where
  "seek pf rd off =
     (if off < - (2 ^ 63) \<or> 2 ^ 63 \<le> off then Inl ValueError
      else if position rd < buffer_start rd + length (buffer rd)
              \<and> int (buffer_start rd) \<le> off + int (skew rd)
              \<and> off + int (skew rd) \<le> int (buffer_start rd + length (buffer rd))
           then Inr (rd\<lparr>position := nat (off + int (skew rd))\<rparr>)
      else if off < 0 \<or> max_offset pf < off then Inl OSError
      else Inr \<lparr>buffer_start = nat off, buffer = [], position = nat off, skew = 0\<rparr>)"

text \<open>
  \<^verbatim>\<open>pack.read(n)\<close> on a file that holds \<open>file\<close> now. \<^verbatim>\<open>read(-1)\<close> returns the unread bytes of
  the buffer and the rest of the file. \<^verbatim>\<open>read(n)\<close> is served from the buffer when it holds
  \<open>n\<close> unread bytes. Otherwise a byte string of \<open>n\<close> bytes is allocated first (an
  OverflowError when \<open>n\<close> and the header of the object exceed 63 bits, a MemoryError when the
  allocation fails); it receives the unread bytes of the buffer and then bytes of the file:
  whole blocks are read directly, and the last part through the buffer, which is filled
  with the next block. Reading ends at the end of the file.
\<close>

definition read :: "platform \<Rightarrow> bytes \<Rightarrow> reader \<Rightarrow> int \<Rightarrow> error + bytes \<times> reader" where
  "read pf file rd n =
     (if n < - (2 ^ 63) \<or> 2 ^ 63 \<le> n then Inl OverflowError
      else if n < - 1 then Inl ValueError
      else
        (let stale = drop (position rd - buffer_start rd) (buffer rd);
             raw = buffer_start rd + length (buffer rd)
         in if n = - 1 then
              (let fresh = drop raw file
               in Inr (stale @ fresh,
                       \<lparr>buffer_start = raw + length fresh, buffer = [],
                        position = raw + length fresh, skew = skew rd + length fresh\<rparr>))
            else if nat n \<le> length stale then
              Inr (take (nat n) stale, rd\<lparr>position := position rd + nat n\<rparr>)
            else if 2 ^ 63 - 34 < n then Inl OverflowError
            else if max_alloc pf < n then Inl MemoryError
            else
              (let remaining = nat n - length stale;
                   blocks = (remaining div buffer_size pf) * buffer_size pf;
                   fresh = take remaining (drop raw file)
               in if length file - raw < blocks then
                    Inr (stale @ fresh,
                         \<lparr>buffer_start = raw + (length file - raw), buffer = [],
                          position = raw + (length file - raw), skew = skew rd\<rparr>)
                  else
                    (let start = raw + blocks;
                         block = (if blocks < remaining
                                  then take (buffer_size pf) (drop start file) else [])
                     in Inr (stale @ fresh,
                             \<lparr>buffer_start = start, buffer = block,
                              position = start + min (remaining - blocks) (length block),
                              skew = skew rd\<rparr>)))))"

text \<open>The body of the loop over the entries of a group. Its state is the file system and
  the file object of the pack at \<open>pack_path\<close>.\<close>

definition extract_entry ::
  "platform \<Rightarrow> path \<Rightarrow> path \<Rightarrow> fs \<times> reader \<Rightarrow> entry \<Rightarrow> error + fs \<times> reader" where
  "extract_entry pf pack_path group_path st ordered_entry =
     (case st of (fs, pack) \<Rightarrow>
      (let file_path = joinpath group_path (OriginalFilename ordered_entry) in
       bind (mkdir fs (parent file_path)) (\<lambda>fs1.
       bind (seek pf pack (Offset ordered_entry)) (\<lambda>pack1.
       bind (open_wb fs1 file_path) (\<lambda>fs2.
       bind (read pf (contents fs2 pack_path) pack1 (Length ordered_entry)) (\<lambda>(data, pack2).
       Inr (write_file fs2 file_path data, pack2)))))))"

fun extract_entries ::
  "platform \<Rightarrow> path \<Rightarrow> path \<Rightarrow> fs \<times> reader \<Rightarrow> entry list \<Rightarrow> error + fs \<times> reader" where
  "extract_entries pf pack_path group_path st [] = Inr st"
| "extract_entries pf pack_path group_path st (e # es) =
     bind (extract_entry pf pack_path group_path st e)
       (\<lambda>st'. extract_entries pf pack_path group_path st' es)"

definition extract_group ::
  "platform \<Rightarrow> path \<Rightarrow> fs \<times> reader \<Rightarrow> group \<Rightarrow> error + fs \<times> reader" where
  "extract_group pf pack_path st g =
     (case st of (fs, pack) \<Rightarrow>
      (let group_path = joinpath extracted_romfs_path (Name g) in
       bind (mkdir fs group_path) (\<lambda>fs1.
       extract_entries pf pack_path group_path (fs1, pack) (OrderedEntries g))))"

fun extract_groups ::
  "platform \<Rightarrow> path \<Rightarrow> fs \<times> reader \<Rightarrow> group list \<Rightarrow> error + fs \<times> reader" where
  "extract_groups pf pack_path st [] = Inr st"
| "extract_groups pf pack_path st (g # gs) =
     bind (extract_group pf pack_path st g) (\<lambda>st'. extract_groups pf pack_path st' gs)"

text \<open>One pack: the pack is opened, then the index beside it is read and decoded.\<close>

definition extract_pack ::
  "platform \<Rightarrow> (bytes \<Rightarrow> group list option) \<Rightarrow> fs \<Rightarrow> path \<Rightarrow> error + fs" where
  "extract_pack pf json_index fs pack_path =
     bind (open_rb fs pack_path) (\<lambda>pack.
     bind (with_suffix pack_path ''.json'') (\<lambda>index_file.
     bind (read_file fs index_file) (\<lambda>index_bytes.
     (case json_index index_bytes of
        None \<Rightarrow> Inl JSONDecodeError
      | Some groups \<Rightarrow>
          bind (extract_groups pf pack_path (fs, pack) groups) (\<lambda>(fs', pack'). Inr fs')))))"

fun extract_packs ::
  "platform \<Rightarrow> (bytes \<Rightarrow> group list option) \<Rightarrow> fs \<Rightarrow> path list \<Rightarrow> error + fs" where
  "extract_packs pf json_index fs [] = Inr fs"
| "extract_packs pf json_index fs (p # ps) =
     bind (extract_pack pf json_index fs p) (\<lambda>fs'. extract_packs pf json_index fs' ps)"

definition pack_list :: "fs \<Rightarrow> path \<Rightarrow> path list" where
  "pack_list fs input_romfs_path = sort (glob_pack fs input_romfs_path)"

definition extract_romfs ::
  "platform \<Rightarrow> (bytes \<Rightarrow> group list option) \<Rightarrow> fs \<Rightarrow> path \<Rightarrow> error + fs" where
  "extract_romfs pf json_index fs input_romfs_path =
     extract_packs pf json_index fs (pack_list fs input_romfs_path)"

subsection \<open>SHA-1 (\<^verbatim>\<open>hashlib.sha1(data).hexdigest()\<close>)\<close>

text \<open>The digest of FIPS 180: the message is padded to whole 64-byte blocks, each block is
  expanded to 80 words and mixed into five 32-bit state words; the hex digest prints the
  state as 40 lower-case hexadecimal digits.\<close>

definition pad :: "bytes \<Rightarrow> bytes" where
  "pad m = m @ [0x80] @ replicate ((119 - length m mod 64) mod 64) 0
     @ map (\<lambda>i. ucast (drop_bit (8 * i) (of_nat (8 * length m) :: 64 word))) (rev [0..<8])"

definition be32 :: "bytes \<Rightarrow> 32 word" where
  "be32 bs = foldl (\<lambda>w b. push_bit 8 w OR ucast b) 0 bs"

fun chunks :: "nat \<Rightarrow> nat \<Rightarrow> 'a list \<Rightarrow> 'a list list" where
  "chunks 0 n xs = []"
| "chunks (Suc k) n xs = take n xs # chunks k n (drop n xs)"

fun schedule :: "nat \<Rightarrow> 32 word list \<Rightarrow> 32 word list" where
  "schedule 0 w = w"
| "schedule (Suc k) w =
     schedule k (w @ [word_rotl 1 (w ! (length w - 3) XOR w ! (length w - 8)
                                   XOR w ! (length w - 14) XOR w ! (length w - 16))])"

type_synonym sha_state = "32 word \<times> 32 word \<times> 32 word \<times> 32 word \<times> 32 word"

definition sha1_round :: "32 word list \<Rightarrow> sha_state \<Rightarrow> nat \<Rightarrow> sha_state" where
  "sha1_round w s t =
     (case s of (a, b, c, d, e) \<Rightarrow>
        (let f = (if t < 20 then (b AND c) OR (NOT b AND d)
                  else if t < 40 then b XOR c XOR d
                  else if t < 60 then (b AND c) OR (b AND d) OR (c AND d)
                  else b XOR c XOR d);
             k = (if t < 20 then 0x5A827999 else if t < 40 then 0x6ED9EBA1
                  else if t < 60 then 0x8F1BBCDC else 0xCA62C1D6)
         in (word_rotl 5 a + f + e + k + w ! t, a, word_rotl 30 b, c, d)))"

definition sha1_block :: "sha_state \<Rightarrow> bytes \<Rightarrow> sha_state" where
  "sha1_block h blk =
     (let w = schedule 64 (map be32 (chunks 16 4 blk))
      in case (h, foldl (sha1_round w) h [0..<80]) of
           ((h0, h1, h2, h3, h4), (a, b, c, d, e)) \<Rightarrow> (h0 + a, h1 + b, h2 + c, h3 + d, h4 + e))"

definition sha1 :: "bytes \<Rightarrow> sha_state" where
  "sha1 m = foldl sha1_block (0x67452301, 0xEFCDAB89, 0x98BADCFE, 0x10325476, 0xC3D2E1F0)
              (chunks (length (pad m) div 64) 64 (pad m))"

definition hex_digit :: "nat \<Rightarrow> char" where
  "hex_digit n = ''0123456789abcdef'' ! n"

definition hex32 :: "32 word \<Rightarrow> string" where
  "hex32 w = map (\<lambda>i. hex_digit (unat (drop_bit (4 * i) w AND 15))) (rev [0..<8])"

definition hexdigest :: "sha_state \<Rightarrow> string" where
  "hexdigest s = (case s of (a, b, c, d, e) \<Rightarrow> hex32 a @ hex32 b @ hex32 c @ hex32 d @ hex32 e)"

subsection \<open>Converting songs (lines 148 to 247)\<close>

text \<open>
  A song of the song list and its difficulties, with the keys the script reads. The key
  \<^verbatim>\<open>id\<close> is \<open>song_id\<close> and \<^verbatim>\<open>set\<close> is \<open>song_set\<close>; \<^verbatim>\<open>remote_dl\<close> may be absent. Numbers
  are integers.
\<close>

record difficulty =
  ratingClass :: int
  rating :: int
  chartDesigner :: string
  jacketDesigner :: string

record song =
  song_id :: string
  song_set :: string
  date :: int
  bpm :: string
  bpm_base :: int
  side :: int
  bg :: string
  title_localized :: "string \<rightharpoonup> string"
  artist :: string
  difficulties :: "difficulty list"
  remote_dl :: "bool option"

text \<open>The records built. A key a dictionary may lack is an option; \<open>rec_id\<close> is the key
  \<^verbatim>\<open>_id\<close>. Level and Pack records share their first keys.\<close>

record skin =
  Side :: string

record chart =
  ChartPath :: string
  AudioPath :: string
  JacketPath :: string
  BaseBpm :: pyfloat
  Title :: string
  Composer :: string
  Charter :: string
  Illustrator :: string
  Difficulty :: string
  ChartConstant :: pyfloat
  DifficultyColor :: string
  Skin :: "skin option"
  SyncBaseBpm :: bool
  BpmText :: "string option"
  BackgroundPath :: string

record settings =
  Charts :: "chart list"
  LastOpenedChartPath :: string

record converted =
  rec_id :: int
  Type :: string
  Identifier :: string
  IsDefaultAsset :: bool
  AddedDate :: string
  Version :: int
  FileReferences :: "string list"

record converted_song = converted +
  Settings :: settings

record converted_pack = converted +
  PackName :: string
  ImagePath :: string
  LevelIdentifiers :: "string list"

definition DIFFICULTY_NAMES :: "string list" where
  "DIFFICULTY_NAMES = [''Past'', ''Present'', ''Future'', ''Beyond'']"

definition DIFFICULTY_COLORS :: "string list" where
  "DIFFICULTY_COLORS = [''#3A6B78FF'', ''#566947FF'', ''#482B54FF'', ''#7C1C30FF'']"

definition song_list_path :: path where
  "song_list_path =
     joinpath (joinpath (joinpath extracted_romfs_path ''not_audio_or_images'') ''songs'') ''songlist''"

definition charts_root_path :: path where
  "charts_root_path = joinpath (joinpath extracted_romfs_path ''charts'') ''songs''"

definition audio_root_path :: path where
  "audio_root_path = joinpath (joinpath extracted_romfs_path ''Fallback'') ''songs''"

definition jacket_root_path :: path where
  "jacket_root_path = joinpath (joinpath extracted_romfs_path ''jackets_large'') ''songs''"

definition background_root_path :: path where
  "background_root_path =
     joinpath (joinpath (joinpath extracted_romfs_path ''not_audio'') ''img'') ''bg''"

definition original_id :: "song \<Rightarrow> string" where
  "original_id s =
     (if remote_dl s \<noteq> None \<and> the (remote_dl s) then ''dl_'' @ song_id s else song_id s)"

definition new_id :: "song \<Rightarrow> string" where
  "new_id s = song_set s @ ''.'' @ song_id s"

definition song_root_path :: "song \<Rightarrow> path" where
  "song_root_path s = joinpath (joinpath final_path ''Level'') (new_id s)"

definition background_path :: "song \<Rightarrow> difficulty \<Rightarrow> path" where
  "background_path s diff =
     (if bg s \<noteq> [] then joinpath background_root_path (bg s @ ''.jpg'')
      else
        (let base_background_type = (if ratingClass diff = 3 then ''byd'' else ''base'');
             base_background_name = (if side s = 0 then ''light'' else ''conflict'')
         in joinpath background_root_path
              (base_background_type @ ''_'' @ base_background_name @ ''.jpg'')))"

text \<open>The body of the loop over the difficulties of a song. Its state is the file system,
  \<^verbatim>\<open>charts\<close> and \<^verbatim>\<open>background_paths\<close>.\<close>

definition convert_difficulty ::
  "song \<Rightarrow> fs \<times> chart list \<times> path list \<Rightarrow> difficulty \<Rightarrow> error + fs \<times> chart list \<times> path list" where
  "convert_difficulty s st diff =
     (case st of (fs, charts, background_paths) \<Rightarrow>
      (let chart_path = joinpath (joinpath charts_root_path (original_id s))
                          (str_int (ratingClass diff) @ ''.aff'') in
       bind (copyfile fs chart_path (joinpath (song_root_path s) (name chart_path))) (\<lambda>fs1.
       bind (py_float (bpm_base s)) (\<lambda>base_bpm.
       bind (py_getitem (title_localized s) ''en'') (\<lambda>title.
       bind (py_index DIFFICULTY_NAMES (ratingClass diff)) (\<lambda>difficulty_name.
       bind (py_float (rating diff)) (\<lambda>chart_constant.
       bind (py_index DIFFICULTY_COLORS (ratingClass diff)) (\<lambda>difficulty_color.
       (let chart = \<lparr>
              ChartPath = name chart_path,
              AudioPath = ''base.ogg'',
              JacketPath = ''base.jpg'',
              BaseBpm = base_bpm,
              Title = title,
              Composer = artist s,
              Charter = chartDesigner diff,
              Illustrator = jacketDesigner diff,
              Difficulty = difficulty_name @ '' '' @ str_int (rating diff),
              ChartConstant = chart_constant,
              DifficultyColor = difficulty_color,
              Skin = (if side s \<in> set [0, 1]
                      then Some \<lparr>Side = (if side s = 0 then ''light'' else ''conflict'')\<rparr>
                      else None),
              SyncBaseBpm = (bpm s = str_int (bpm_base s)),
              BpmText = (if bpm s = str_int (bpm_base s) then None
                         else Some (replace (replace (bpm s) CHR '' '' []) CHR ''-'' '' - '')),
              BackgroundPath = name (background_path s diff)\<rparr>
        in if \<not> exists fs1 (joinpath (song_root_path s) (name (background_path s diff)))
           then bind (copyfile fs1 (background_path s diff)
                        (joinpath (song_root_path s) (name (background_path s diff)))) (\<lambda>fs2.
                Inr (fs2, charts @ [chart], background_paths @ [background_path s diff]))
           else Inr (fs1, charts @ [chart], background_paths))))))))))"

fun convert_difficulties ::
  "song \<Rightarrow> fs \<times> chart list \<times> path list \<Rightarrow> difficulty list \<Rightarrow> error + fs \<times> chart list \<times> path list" where
  "convert_difficulties s st [] = Inr st"
| "convert_difficulties s st (d # ds) =
     bind (convert_difficulty s st d) (\<lambda>st'. convert_difficulties s st' ds)"

text \<open>The body of the loop over the songs, up to the record appended to
  \<^verbatim>\<open>converted_songs\<close>; \<open>i\<close> is the running id.\<close>

definition convert_song :: "fs \<Rightarrow> int \<Rightarrow> song \<Rightarrow> error + fs \<times> converted_song" where
  "convert_song fs i s =
     bind (mkdir fs (song_root_path s)) (\<lambda>fs1.
     bind (copyfile fs1 (joinpath (joinpath audio_root_path (original_id s)) ''base.ogg'')
             (joinpath (song_root_path s) ''base.ogg'')) (\<lambda>fs2.
     bind (copyfile fs2 (joinpath (joinpath jacket_root_path (original_id s)) ''base.jpg'')
             (joinpath (song_root_path s) ''base.jpg'')) (\<lambda>fs3.
     bind (convert_difficulties s (fs3, [], []) (difficulties s)) (\<lambda>(fs4, charts, background_paths).
     bind (py_index charts (- 1)) (\<lambda>last_chart.
     Inr (fs4, \<lparr>
       rec_id = i,
       Type = ''Level'',
       Identifier = new_id s,
       IsDefaultAsset = True,
       AddedDate = ''d'' @ str_int (date s),
       Version = 0,
       FileReferences = [''base.ogg'', ''base.jpg''] @ map name background_paths
                          @ map ChartPath charts,
       Settings = \<lparr>Charts = charts, LastOpenedChartPath = ChartPath last_chart\<rparr>\<rparr>))))))"

type_synonym level_index = "string \<rightharpoonup> string list"

definition add_level_identifier :: "level_index \<Rightarrow> song \<Rightarrow> level_index" where
  "add_level_identifier level_identifiers s =
     level_identifiers(song_set s \<mapsto>
       (case level_identifiers (song_set s) of None \<Rightarrow> [] | Some l \<Rightarrow> l) @ [new_id s])"

fun convert_songs ::
  "fs \<Rightarrow> converted_song list \<Rightarrow> level_index \<Rightarrow> int \<Rightarrow> song list
     \<Rightarrow> error + fs \<times> converted_song list \<times> level_index" where
  "convert_songs fs converted_songs level_identifiers i [] =
     Inr (fs, converted_songs, level_identifiers)"
| "convert_songs fs converted_songs level_identifiers i (s # ss) =
     bind (convert_song fs i s) (\<lambda>(fs', converted_song).
     convert_songs fs' (converted_songs @ [converted_song])
       (add_level_identifier level_identifiers s) (i + 1) ss)"

subsection \<open>Converting packs (lines 249 to 285)\<close>

text \<open>A pack of the pack list; the key \<^verbatim>\<open>id\<close> is \<open>pack_id\<close>, and \<^verbatim>\<open>pack_parent\<close> may be
  absent. \<open>clock i\<close> is what \<^verbatim>\<open>int(time())\<close> returns while the pack with id \<open>i\<close> is
  converted.\<close>

record pack =
  pack_id :: string
  pack_parent :: "string option"
  name_localized :: "string \<rightharpoonup> string"

definition pack_list_path :: path where
  "pack_list_path =
     joinpath (joinpath (joinpath extracted_romfs_path ''not_audio_or_images'') ''songs'') ''packlist''"

definition pack_cover_root_path :: path where
  "pack_cover_root_path =
     joinpath (joinpath (joinpath extracted_romfs_path ''packs'') ''songs'') ''pack''"

definition singles_cover_path :: path where
  "singles_cover_path =
     joinpath (joinpath (joinpath (joinpath extracted_romfs_path ''not_large_png'') ''layouts'')
       ''songselect'') ''folder_singles.png''"

definition pack_new_id :: "pack \<Rightarrow> string" where
  "pack_new_id p = (case pack_parent p of Some parent_id \<Rightarrow> parent_id | None \<Rightarrow> pack_id p)"

definition pack_root_path :: "pack \<Rightarrow> path" where
  "pack_root_path p = joinpath (joinpath final_path ''Pack'') (pack_new_id p)"

definition pack_cover_path :: "pack \<Rightarrow> path" where
  "pack_cover_path p =
     (if pack_new_id p = ''single'' then singles_cover_path
      else joinpath pack_cover_root_path (''select_'' @ pack_new_id p @ ''.png''))"

definition convert_pack ::
  "(int \<Rightarrow> int) \<Rightarrow> level_index \<Rightarrow> fs \<Rightarrow> int \<Rightarrow> pack \<Rightarrow> error + fs \<times> converted_pack" where
  "convert_pack clock level_identifiers fs i p =
     bind (mkdir fs (pack_root_path p)) (\<lambda>fs1.
     bind (if pack_new_id p = ''single'' then Inr fs1
           else copyfile fs1 (pack_cover_path p)
                  (joinpath (pack_root_path p) (name (pack_cover_path p)))) (\<lambda>fs2.
     bind (py_getitem (name_localized p) ''en'') (\<lambda>pack_name.
     bind (py_getitem level_identifiers (pack_id p)) (\<lambda>levels.
     Inr (fs2, \<lparr>
       rec_id = i,
       Type = ''Pack'',
       Identifier = pack_new_id p,
       IsDefaultAsset = True,
       AddedDate = ''d'' @ str_int (clock i),
       Version = 0,
       FileReferences = [name (pack_cover_path p)],
       PackName = pack_name,
       ImagePath = name (pack_cover_path p),
       LevelIdentifiers = levels\<rparr>)))))"

fun convert_packs ::
  "(int \<Rightarrow> int) \<Rightarrow> level_index \<Rightarrow> fs \<Rightarrow> converted_pack list \<Rightarrow> int \<Rightarrow> pack list
     \<Rightarrow> error + fs \<times> converted_pack list" where
  "convert_packs clock level_identifiers fs converted_packs i [] = Inr (fs, converted_packs)"
| "convert_packs clock level_identifiers fs converted_packs i (p # ps) =
     bind (convert_pack clock level_identifiers fs i p) (\<lambda>(fs', converted_pack).
     convert_packs clock level_identifiers fs' (converted_packs @ [converted_pack]) (i + 1) ps)"

subsection \<open>Moving files into the store (lines 287 to 305)\<close>

text \<open>A File record; \<open>file_id\<close> is its key \<^verbatim>\<open>_id\<close>.\<close>

record converted_file =
  file_id :: string
  RealPath :: string
  CorrectHashPath :: string

definition storage_root_path :: path where
  "storage_root_path = joinpath final_path ''storage''"

definition file_hash_path :: "bytes \<Rightarrow> path \<Rightarrow> path" where
  "file_hash_path data file =
     joinpath storage_root_path (hexdigest (sha1 data) @ path_suffix file)"

text \<open>The body of the loop over the files found by the glob.\<close>

definition move_file ::
  "fs \<times> converted_file list \<Rightarrow> path \<Rightarrow> error + fs \<times> converted_file list" where
  "move_file st file =
     (case st of (fs, converted_files) \<Rightarrow>
      if is_file fs file then
        bind (relative_to file final_path) (\<lambda>rel.
        bind (read_file fs file) (\<lambda>data.
        bind (if \<not> exists fs (file_hash_path data file)
              then rename fs file (file_hash_path data file) else Inr fs) (\<lambda>fs'.
        Inr (fs', converted_files @ [\<lparr>
          file_id = as_posix rel,
          RealPath = name (file_hash_path data file),
          CorrectHashPath = name (file_hash_path data file)\<rparr>]))))
      else Inr (fs, converted_files))"

fun move_listed ::
  "fs \<times> converted_file list \<Rightarrow> path list \<Rightarrow> error + fs \<times> converted_file list" where
  "move_listed st [] = Inr st"
| "move_listed st (f # fs) = bind (move_file st f) (\<lambda>st'. move_listed st' fs)"

definition move_type ::
  "fs \<times> converted_file list \<Rightarrow> string \<Rightarrow> error + fs \<times> converted_file list" where
  "move_type st type_name =
     bind (move_listed st (glob_all (fst st) (joinpath final_path type_name))) (\<lambda>(fs', converted_files).
     bind (rmtree fs' (joinpath final_path type_name)) (\<lambda>fs''.
     Inr (fs'', converted_files)))"

definition move_files :: "fs \<Rightarrow> error + fs \<times> converted_file list" where
  "move_files fs =
     bind (mkdir fs storage_root_path) (\<lambda>fs0.
     bind (move_type (fs0, []) ''Level'') (\<lambda>st.
     move_type st ''Pack''))"

subsection \<open>Updating the database (lines 307 to 327)\<close>

text \<open>Each call of \<^verbatim>\<open>litedb.subcommand\<close> is a command with the record it sends. How the
  record is written as JSON text is not modelled.\<close>

datatype command =
    AddLevel converted_song
  | AddPack converted_pack
  | AddFile converted_file

definition update_database ::
  "converted_song list \<Rightarrow> converted_pack list \<Rightarrow> converted_file list \<Rightarrow> command list" where
  "update_database converted_songs converted_packs converted_files =
     map AddLevel converted_songs @ map AddPack converted_packs @ map AddFile converted_files"

subsection \<open>The whole run\<close>

text \<open>
  The run from the creation of the two output directories on. The JSON decoders, the two
  counts the helper process reports and the clock are parameters. The result is the final
  file system and the commands sent to the helper, in order.
\<close>

definition convert ::
  "(bytes \<Rightarrow> song list option) \<Rightarrow> (bytes \<Rightarrow> pack list option) \<Rightarrow> int \<Rightarrow> int \<Rightarrow> (int \<Rightarrow> int)
     \<Rightarrow> fs \<Rightarrow> error + fs \<times> command list" where
  "convert json_songlist json_packlist level_count pack_count clock fs =
     bind (read_file fs song_list_path) (\<lambda>song_bytes.
     (case json_songlist song_bytes of
        None \<Rightarrow> Inl JSONDecodeError
      | Some songs \<Rightarrow>
     bind (convert_songs fs [] Map.empty (level_count + 1) songs)
       (\<lambda>(fs1, converted_songs, level_identifiers).
     bind (read_file fs1 pack_list_path) (\<lambda>pack_bytes.
     (case json_packlist pack_bytes of
        None \<Rightarrow> Inl JSONDecodeError
      | Some packs \<Rightarrow>
     bind (convert_packs clock level_identifiers fs1 [] (pack_count + 1) packs)
       (\<lambda>(fs2, converted_packs).
     bind (move_files fs2) (\<lambda>(fs3, converted_files).
     Inr (fs3, update_database converted_songs converted_packs converted_files))))))))"

text \<open>
  The whole script, from the checks at its start (lines 95 to 116) on; the two command-line
  arguments are given. \<^verbatim>\<open>sys.exit(1)\<close> is the error \<open>SystemExit\<close>. The catalog file is only
  copied into the output directory here; what the helper process writes into it is outside
  this model.
\<close>

definition litedb_path :: path where
  "litedb_path = [''ArcUnpack.LiteDB'', ''bin'', ''Release'', ''net7.0'', ''linux-x64'',
                  ''publish'', ''ArcUnpack.LiteDB'']"

definition arc_create_db_path :: path where
  "arc_create_db_path = joinpath final_path ''arccreate.litedb''"

definition main ::
  "platform \<Rightarrow> (bytes \<Rightarrow> group list option) \<Rightarrow> (bytes \<Rightarrow> song list option)
     \<Rightarrow> (bytes \<Rightarrow> pack list option) \<Rightarrow> int \<Rightarrow> int \<Rightarrow> (int \<Rightarrow> int) \<Rightarrow> fs \<Rightarrow> path \<Rightarrow> path
     \<Rightarrow> error + fs \<times> command list" where
  "main pf json_index json_songlist json_packlist level_count pack_count clock fs
        input_romfs_path arc_create_db_input_path =
     (if \<not> exists fs litedb_path then Inl SystemExit
      else if \<not> exists fs input_romfs_path \<and> \<not> exists fs extracted_romfs_path
      then Inl SystemExit
      else
        bind (mkdir fs extracted_romfs_path) (\<lambda>fs1.
        bind (mkdir fs1 final_path) (\<lambda>fs2.
        bind (if \<not> exists fs2 arc_create_db_path
              then copyfile fs2 arc_create_db_input_path arc_create_db_path
              else Inr fs2) (\<lambda>fs3.
        bind (if \<not> exists fs3 arc_create_db_path then Inl FileNotFoundError else Inr fs3) (\<lambda>fs4.
        bind (extract_romfs pf json_index fs4 input_romfs_path) (\<lambda>fs5.
        convert json_songlist json_packlist level_count pack_count clock fs5))))))"

subsection \<open>What a chart must look like, and example inputs\<close>

text \<open>\<open>chart_for s d c\<close> collects the fields of the chart \<open>c\<close> that the loop body computes
  from the song \<open>s\<close> and its difficulty \<open>d\<close> alone.\<close>

definition chart_for :: "song \<Rightarrow> difficulty \<Rightarrow> chart \<Rightarrow> bool" where
  "chart_for s d c \<longleftrightarrow>
     ChartPath c = name (joinpath (joinpath charts_root_path (original_id s))
                            (str_int (ratingClass d) @ ''.aff''))
     \<and> SyncBaseBpm c = (bpm s = str_int (bpm_base s))
     \<and> BpmText c = (if bpm s = str_int (bpm_base s) then None
                     else Some (replace (replace (bpm s) CHR '' '' []) CHR ''-'' '' - ''))
     \<and> BackgroundPath c = name (background_path s d)
     \<and> Skin c = (if side s = 0 then Some \<lparr>Side = ''light''\<rparr>
                  else if side s = 1 then Some \<lparr>Side = ''conflict''\<rparr> else None)
     \<and> (\<exists>n. py_index DIFFICULTY_NAMES (ratingClass d) = Inr n
              \<and> Difficulty c = n @ '' '' @ str_int (rating d))"


text \<open>A staged tree with one song of two difficulties and the cover of its pack.\<close>

definition song_a :: song where
  "song_a = \<lparr>song_id = ''s1'', song_set = ''p1'', date = 7, bpm = ''120-140'', bpm_base = 120,
     side = 1, bg = [], title_localized = [''en'' \<mapsto> ''T''], artist = ''A'',
     difficulties = [\<lparr>ratingClass = 0, rating = 3, chartDesigner = ''c'', jacketDesigner = ''j''\<rparr>,
                     \<lparr>ratingClass = 3, rating = 9, chartDesigner = ''c'', jacketDesigner = ''j''\<rparr>],
     remote_dl = None\<rparr>"

definition fs_a :: fs where
  "fs_a = [([''extracted_romfs'', ''Fallback'', ''songs'', ''s1'', ''base.ogg''], File [1]),
          ([''extracted_romfs'', ''jackets_large'', ''songs'', ''s1'', ''base.jpg''], File [2]),
          ([''extracted_romfs'', ''charts'', ''songs'', ''s1'', ''0.aff''], File [3]),
          ([''extracted_romfs'', ''charts'', ''songs'', ''s1'', ''3.aff''], File [3]),
          ([''extracted_romfs'', ''not_audio'', ''img'', ''bg'', ''base_conflict.jpg''], File [5]),
          ([''extracted_romfs'', ''not_audio'', ''img'', ''bg'', ''byd_conflict.jpg''], File [6]),
          ([''extracted_romfs'', ''packs'', ''songs'', ''pack'', ''select_p1.png''], File [7])]"

definition song_e :: song where
  "song_e = song_a\<lparr>difficulties := []\<rparr>"

definition song_b :: song where
  "song_b = song_a\<lparr>side := 2, difficulties :=
     [\<lparr>ratingClass = - 1, rating = 3, chartDesigner = ''c'', jacketDesigner = ''j''\<rparr>]\<rparr>"

definition song_c :: song where
  "song_c = song_a\<lparr>difficulties :=
     [\<lparr>ratingClass = 4, rating = 3, chartDesigner = ''c'', jacketDesigner = ''j''\<rparr>]\<rparr>"

definition fs_b :: fs where
  "fs_b = [([''extracted_romfs'', ''Fallback'', ''songs'', ''s1'', ''base.ogg''], File [1]),
          ([''extracted_romfs'', ''jackets_large'', ''songs'', ''s1'', ''base.jpg''], File [2]),
          ([''extracted_romfs'', ''charts'', ''songs'', ''s1'', ''-1.aff''], File [3]),
          ([''extracted_romfs'', ''charts'', ''songs'', ''s1'', ''4.aff''], File [4]),
          ([''extracted_romfs'', ''not_audio'', ''img'', ''bg'', ''base_conflict.jpg''], File [5])]"

definition pack_a :: pack where
  "pack_a = \<lparr>pack_id = ''p1'', pack_parent = None, name_localized = [''en'' \<mapsto> ''P'']\<rparr>"

definition pack_z :: pack where
  "pack_z = \<lparr>pack_id = ''zz'', pack_parent = Some ''p1'', name_localized = [''en'' \<mapsto> ''Z'']\<rparr>"

definition fs_c :: fs where
  "fs_c = fs_b @ [([''final''], Dir), ([''final'', ''Level''], Dir),
                  ([''final'', ''Level'', ''p1.s1''], Dir)]"


definition file_content :: "fs \<Rightarrow> path \<Rightarrow> bytes option" where
  "file_content fs p = (case lookup fs p of Some (File b) \<Rightarrow> Some b | _ \<Rightarrow> None)"















text \<open>The name under which the loop stores a file with the bytes \<open>data\<close> found at \<open>p\<close>, and the
  record it appends for it.\<close>

definition stored_name :: "bytes \<Rightarrow> path \<Rightarrow> string" where
  "stored_name data p = hexdigest (sha1 data) @ path_suffix p"

definition file_record :: "bytes \<Rightarrow> path \<Rightarrow> converted_file" where
  "file_record data p =
     \<lparr>file_id = as_posix (drop (length final_path) p),
      RealPath = stored_name data p,
      CorrectHashPath = stored_name data p\<rparr>"

text \<open>A store in which every file is named by the digest of its bytes followed by its own
  suffix, as the loop leaves it when it starts from an empty store.\<close>

definition store_ok :: "fs \<Rightarrow> bool" where
  "store_ok fs \<longleftrightarrow>
     (\<forall>n b. file_content fs (storage_root_path @ [n]) = Some b
              \<longrightarrow> n = hexdigest (sha1 b) @ suffix_of n)"

text \<open>No file name contains the separator.\<close>

definition wf_files :: "fs \<Rightarrow> bool" where
  "wf_files fs \<longleftrightarrow> (\<forall>p. file_content fs p \<noteq> None \<longrightarrow> CHR ''/'' \<notin> set (name p))"

text \<open>The invariant of the loop over the files of one working directory, and its result for
  the whole directory.\<close>

definition moved :: "fs \<Rightarrow> converted_file list \<Rightarrow> path list \<Rightarrow> fs \<Rightarrow> converted_file list \<Rightarrow> bool" where
  "moved fs cf files fs' cf' \<longleftrightarrow>
     cf' = cf @ map (\<lambda>p. file_record (the (file_content fs p)) p)
                 (filter (\<lambda>p. file_content fs p \<noteq> None) files)
     \<and> (\<forall>q. q \<notin> set files \<and> \<not> prefix storage_root_path q \<longrightarrow> lookup fs' q = lookup fs q)
     \<and> (\<forall>p \<in> set files. \<forall>data. file_content fs p = Some data \<longrightarrow>
           exists fs' (storage_root_path @ [stored_name data p]))
     \<and> (store_ok fs \<longrightarrow> store_ok fs')
     \<and> (\<forall>q. prefix storage_root_path q \<and> exists fs q \<longrightarrow> lookup fs' q = lookup fs q)"

definition type_moved :: "path \<Rightarrow> fs \<Rightarrow> converted_file list \<Rightarrow> fs \<Rightarrow> converted_file list \<Rightarrow> bool" where
  "type_moved d fs cf fs' cf' \<longleftrightarrow>
     is_dir fs d
     \<and> cf' = cf @ map (\<lambda>p. file_record (the (file_content fs p)) p)
                 (filter (\<lambda>p. file_content fs p \<noteq> None) (glob_all fs d))
     \<and> (\<forall>q. \<not> prefix d q \<and> \<not> prefix storage_root_path q \<longrightarrow> file_content fs' q = file_content fs q)
     \<and> (\<forall>p data. strict_prefix d p \<and> file_content fs p = Some data \<longrightarrow>
           exists fs' (storage_root_path @ [stored_name data p]))
     \<and> (store_ok fs \<longrightarrow> store_ok fs')
     \<and> (\<forall>q. prefix storage_root_path q \<and> exists fs q \<longrightarrow>
           file_content fs' q = file_content fs q \<and> exists fs' q)
     \<and> (\<forall>q. prefix d q \<longrightarrow> file_content fs' q = None)"

text \<open>Two working files with the same bytes and different suffixes.\<close>

definition fs_s :: fs where
  "fs_s = [([''final''], Dir), ([''final'', ''Level''], Dir), ([''final'', ''Level'', ''x''], Dir),
           ([''final'', ''Level'', ''x'', ''a.jpg''], File [1]),
           ([''final'', ''Level'', ''x'', ''b.png''], File [1]),
           ([''final'', ''Pack''], Dir)]"

text \<open>A staged tree with one song of the pack \<^verbatim>\<open>single\<close>, whose jacket and background have the
  same bytes.\<close>

definition song_m :: song where
  "song_m = \<lparr>song_id = ''s'', song_set = ''single'', date = 7, bpm = ''120'', bpm_base = 120,
     side = 0, bg = ''b'', title_localized = [''en'' \<mapsto> ''T''], artist = ''A'',
     difficulties = [\<lparr>ratingClass = 0, rating = 3, chartDesigner = ''c'', jacketDesigner = ''j''\<rparr>],
     remote_dl = None\<rparr>"

definition pack_m :: pack where
  "pack_m = \<lparr>pack_id = ''single'', pack_parent = None, name_localized = [''en'' \<mapsto> ''P'']\<rparr>"


text \<open>Two working files with the same bytes and the same suffix.\<close>

definition fs_d :: fs where
  "fs_d = [([''final''], Dir), ([''final'', ''Level''], Dir), ([''final'', ''Level'', ''x''], Dir),
           ([''final'', ''Level'', ''x'', ''a.jpg''], File [1]),
           ([''final'', ''Level'', ''x'', ''b.jpg''], File [1]),
           ([''final'', ''Pack''], Dir)]"

text \<open>A staged tree with two songs of two packs. The background of both is named like the
  jacket, and both packs are shown under \<^verbatim>\<open>single\<close>, which has no cover of its own.\<close>

definition song_u :: song where
  "song_u = song_m\<lparr>bg := ''base''\<rparr>"

definition song_v :: song where
  "song_v = song_m\<lparr>song_id := ''t'', song_set := ''p1'', bg := ''base''\<rparr>"

definition pack_v :: pack where
  "pack_v = \<lparr>pack_id = ''p1'', pack_parent = Some ''single'', name_localized = [''en'' \<mapsto> ''Q'']\<rparr>"

definition fs_u :: fs where
  "fs_u = [([''extracted_romfs'', ''Fallback'', ''songs'', ''s'', ''base.ogg''], File [1]),
          ([''extracted_romfs'', ''jackets_large'', ''songs'', ''s'', ''base.jpg''], File [2]),
          ([''extracted_romfs'', ''charts'', ''songs'', ''s'', ''0.aff''], File [3]),
          ([''extracted_romfs'', ''Fallback'', ''songs'', ''t'', ''base.ogg''], File [1]),
          ([''extracted_romfs'', ''jackets_large'', ''songs'', ''t'', ''base.jpg''], File [2]),
          ([''extracted_romfs'', ''charts'', ''songs'', ''t'', ''0.aff''], File [3]),
          ([''extracted_romfs'', ''not_audio_or_images'', ''songs'', ''songlist''], File []),
          ([''extracted_romfs'', ''not_audio_or_images'', ''songs'', ''packlist''], File [])]"






section \<open>Properties\<close>

subsection \<open>Evaluation and basic facts\<close>

lemmas path_defs = joinpath_def parse_parts_def splitroot_def name_def parent_def is_anchor_def
  extracted_romfs_path_def final_path_def charts_root_path_def audio_root_path_def
  jacket_root_path_def background_root_path_def song_root_path_def new_id_def original_id_def
  background_path_def

lemmas fs_defs = lookup_def exists_def is_file_def is_dir_def mkdir_def read_file_def
  open_wb_def write_file_def copyfile_def

lemmas py_defs = str_int_def nat_digits.simps digit_char_def py_float_def py_index_def
  py_getitem_def replace_def DIFFICULTY_NAMES_def DIFFICULTY_COLORS_def

lemma bind_Inl [simp]: "bind (Inl e) f = Inl e"
  by (simp add: bind_def)

lemma bind_Inr [simp]: "bind (Inr x) f = f x"
  by (simp add: bind_def)

lemma bind_eq_Inr: "bind r f = Inr y \<longleftrightarrow> (\<exists>x. r = Inr x \<and> f x = Inr y)"
  by (cases r) simp_all

lemma bind_eq_Inl: "bind r f = Inl e \<longleftrightarrow> r = Inl e \<or> (\<exists>x. r = Inr x \<and> f x = Inl e)"
  by (cases r) simp_all






lemma convert_difficulty_unfold:
  assumes "convert_difficulty s (fs, charts, bgs) d = Inr (fs', charts', bgs')"
  shows "\<exists>fs1 c.
      copyfile fs (joinpath (joinpath charts_root_path (original_id s))
                     (str_int (ratingClass d) @ ''.aff''))
        (joinpath (song_root_path s)
           (name (joinpath (joinpath charts_root_path (original_id s))
                    (str_int (ratingClass d) @ ''.aff'')))) = Inr fs1
    \<and> chart_for s d c \<and> charts' = charts @ [c]
    \<and> (if exists fs1 (joinpath (song_root_path s) (name (background_path s d)))
        then fs' = fs1 \<and> bgs' = bgs
        else copyfile fs1 (background_path s d)
               (joinpath (song_root_path s) (name (background_path s d))) = Inr fs'
             \<and> bgs' = bgs @ [background_path s d])"
proof -
  from assms obtain fs1 base_bpm title dn cc dc c where
    f: "copyfile fs (joinpath (joinpath charts_root_path (original_id s))
                     (str_int (ratingClass d) @ ''.aff''))
        (joinpath (song_root_path s)
           (name (joinpath (joinpath charts_root_path (original_id s))
                    (str_int (ratingClass d) @ ''.aff'')))) = Inr fs1"
    and n: "py_index DIFFICULTY_NAMES (ratingClass d) = Inr dn"
    and c: "c = \<lparr>
              ChartPath = name (joinpath (joinpath charts_root_path (original_id s))
                          (str_int (ratingClass d) @ ''.aff'')),
              AudioPath = ''base.ogg'',
              JacketPath = ''base.jpg'',
              BaseBpm = base_bpm,
              Title = title,
              Composer = artist s,
              Charter = chartDesigner d,
              Illustrator = jacketDesigner d,
              Difficulty = dn @ '' '' @ str_int (rating d),
              ChartConstant = cc,
              DifficultyColor = dc,
              Skin = (if side s \<in> set [0, 1]
                      then Some \<lparr>Side = (if side s = 0 then ''light'' else ''conflict'')\<rparr>
                      else None),
              SyncBaseBpm = (bpm s = str_int (bpm_base s)),
              BpmText = (if bpm s = str_int (bpm_base s) then None
                         else Some (replace (replace (bpm s) CHR '' '' []) CHR ''-'' '' - '')),
              BackgroundPath = name (background_path s d)\<rparr>"
    and r: "(if \<not> exists fs1 (joinpath (song_root_path s) (name (background_path s d)))
           then bind (copyfile fs1 (background_path s d)
                        (joinpath (song_root_path s) (name (background_path s d)))) (\<lambda>fs2.
                Inr (fs2, charts @ [c], bgs @ [background_path s d]))
           else Inr (fs1, charts @ [c], bgs)) = Inr (fs', charts', bgs')"
    unfolding convert_difficulty_def Let_def prod.case bind_eq_Inr by blast
  have "chart_for s d c"
    unfolding chart_for_def c using n by auto
  moreover from r have "charts' = charts @ [c]"
    by (auto simp: bind_eq_Inr split: if_splits)
  moreover from r have "if exists fs1 (joinpath (song_root_path s) (name (background_path s d)))
        then fs' = fs1 \<and> bgs' = bgs
        else copyfile fs1 (background_path s d)
               (joinpath (song_root_path s) (name (background_path s d))) = Inr fs'
             \<and> bgs' = bgs @ [background_path s d]"
    by (auto simp: bind_eq_Inr split: if_splits)
  ultimately show ?thesis using f by blast
qed

lemma convert_difficulty_Inr:
  assumes "convert_difficulty s (fs, charts, bgs) d = Inr (fs', charts', bgs')"
  shows "\<exists>c. charts' = charts @ [c] \<and> chart_for s d c"
  using convert_difficulty_unfold[OF assms] by blast

lemma convert_difficulties_Inr:
  assumes "convert_difficulties s (fs, charts, bgs) ds = Inr (fs', charts', bgs')"
  shows "\<exists>new. charts' = charts @ new \<and> list_all2 (chart_for s) ds new"
  using assms
proof (induction ds arbitrary: fs charts bgs)
  case Nil
  then show ?case by simp
next
  case (Cons d ds)
  from Cons.prems obtain fs1 charts1 bgs1
    where 1: "convert_difficulty s (fs, charts, bgs) d = Inr (fs1, charts1, bgs1)"
      and 2: "convert_difficulties s (fs1, charts1, bgs1) ds = Inr (fs', charts', bgs')"
    by (auto simp: bind_eq_Inr)
  from convert_difficulty_Inr[OF 1] obtain c where c: "charts1 = charts @ [c]" "chart_for s d c"
    by blast
  from Cons.IH[OF 2] obtain new where n: "charts' = charts1 @ new" "list_all2 (chart_for s) ds new"
    by blast
  have "charts' = charts @ (c # new)" using c n by simp
  moreover have "list_all2 (chart_for s) (d # ds) (c # new)" using c n by simp
  ultimately show ?case by blast
qed

lemma py_index_last: "py_index xs (- 1) = (if xs = [] then Inl IndexError else Inr (last xs))"
proof (cases xs)
  case Nil
  then show ?thesis by (simp add: py_index_def)
next
  case (Cons a as)
  have "nat (int (length xs) + - 1) = length xs - 1" by simp
  then show ?thesis using Cons by (simp add: py_index_def last_conv_nth del: last.simps)
qed

lemma convert_song_Inr:
  assumes "convert_song fs i s = Inr (fs', r)"
  shows "\<exists>fs3 bgs. convert_difficulties s (fs3, [], []) (difficulties s)
                      = Inr (fs', Charts (Settings r), bgs)
           \<and> rec_id r = i \<and> Identifier r = new_id s
           \<and> FileReferences r = [''base.ogg'', ''base.jpg''] @ map name bgs
                                  @ map ChartPath (Charts (Settings r))
           \<and> Charts (Settings r) \<noteq> []
           \<and> LastOpenedChartPath (Settings r) = ChartPath (last (Charts (Settings r)))"
  using assms unfolding convert_song_def
  by (auto simp: bind_eq_Inr py_index_last split: if_splits) blast

lemma convert_song_charts:
  assumes "convert_song fs i s = Inr (fs', r)"
  shows "list_all2 (chart_for s) (difficulties s) (Charts (Settings r))"
  using convert_song_Inr[OF assms] convert_difficulties_Inr by fastforce





lemma song_a_converted: "\<exists>fs' r. convert_song fs_a 11 song_a = Inr (fs', r)"
  by (simp add: convert_song_def convert_difficulty_def song_a_def fs_a_def path_defs fs_defs
      py_defs upt_rec)

subsection \<open>The BPM display rule\<close>

text \<open>
  Claim C9. For every converted song and each of its charts (one per difficulty): when the
  song's \<^verbatim>\<open>bpm\<close> string equals \<^verbatim>\<open>str(bpm_base)\<close> the chart has \<^verbatim>\<open>SyncBaseBpm\<close> true and no
  \<^verbatim>\<open>BpmText\<close> key; otherwise \<^verbatim>\<open>SyncBaseBpm\<close> is false and \<^verbatim>\<open>BpmText\<close> is the \<^verbatim>\<open>bpm\<close> string with
  its spaces removed and every hyphen replaced by a hyphen between two spaces. With
  \<^verbatim>\<open>bpm = "120-140"\<close> and \<^verbatim>\<open>bpm_base = 120\<close> the strings differ and the text is \<^verbatim>\<open>120 - 140\<close>.
\<close>

theorem bpm_display_rule:
  assumes "convert_song fs i s = Inr (fs', r)"
  shows "length (Charts (Settings r)) = length (difficulties s)
     \<and> (\<forall>c \<in> set (Charts (Settings r)).
          (bpm s = str_int (bpm_base s) \<longrightarrow> SyncBaseBpm c \<and> BpmText c = None)
        \<and> (bpm s \<noteq> str_int (bpm_base s) \<longrightarrow>
             \<not> SyncBaseBpm c
             \<and> BpmText c = Some (replace (replace (bpm s) CHR '' '' []) CHR ''-'' '' - '')))
     \<and> ''120-140'' \<noteq> str_int 120
     \<and> replace (replace ''120-140'' CHR '' '' []) CHR ''-'' '' - '' = ''120 - 140''"
proof -
  have l: "list_all2 (chart_for s) (difficulties s) (Charts (Settings r))"
    by (rule convert_song_charts[OF assms])
  have "\<forall>c \<in> set (Charts (Settings r)). \<exists>d. chart_for s d c"
    using l by (metis in_set_conv_nth list_all2_conv_all_nth)
  then have "\<forall>c \<in> set (Charts (Settings r)).
          (bpm s = str_int (bpm_base s) \<longrightarrow> SyncBaseBpm c \<and> BpmText c = None)
        \<and> (bpm s \<noteq> str_int (bpm_base s) \<longrightarrow>
             \<not> SyncBaseBpm c
             \<and> BpmText c = Some (replace (replace (bpm s) CHR '' '' []) CHR ''-'' '' - ''))"
    by (auto simp: chart_for_def)
  moreover have "length (Charts (Settings r)) = length (difficulties s)"
    using l by (simp add: list_all2_lengthD)
  moreover have "''120-140'' \<noteq> str_int 120"
    by (simp add: str_int_def nat_digits.simps digit_char_def)
  moreover have "replace (replace ''120-140'' CHR '' '' []) CHR ''-'' '' - '' = ''120 - 140''"
    by (simp add: replace_def)
  ultimately show ?thesis by blast
qed


theorem bpm_display_rule_witness:
  "\<exists>fs' r. convert_song fs_a 11 song_a = Inr (fs', r)
     \<and> map SyncBaseBpm (Charts (Settings r)) = [False, False]
     \<and> map BpmText (Charts (Settings r)) = [Some ''120 - 140'', Some ''120 - 140'']"
proof -
  obtain fs' r where h: "convert_song fs_a 11 song_a = Inr (fs', r)"
    using song_a_converted by blast
  have b: "bpm song_a = ''120-140''" "bpm_base song_a = 120" "length (difficulties song_a) = 2"
    by (simp_all add: song_a_def)
  from bpm_display_rule[OF h] have "length (Charts (Settings r)) = 2"
    unfolding b by simp
  then obtain c0 c1 where "Charts (Settings r) = [c0, c1]"
    by (auto simp: length_Suc_conv numeral_2_eq_2)
  with bpm_display_rule[OF h] show ?thesis
    unfolding b using h by auto
qed







subsection \<open>Background selection\<close>



lemma sum_cases_Inl: "(\<And>x. r \<noteq> Inr x) \<Longrightarrow> \<exists>e. r = Inl e"
  by (cases r) auto

lemma convert_difficulties_Nil_charts:
  "convert_difficulties s (fs, [], []) [] = Inr (fs, [], [])"
  by simp

lemma convert_song_empty:
  assumes "difficulties s = []"
  shows "convert_song fs i s \<noteq> Inr x"
proof
  assume h: "convert_song fs i s = Inr x"
  obtain fs' r where x: "x = (fs', r)" by (cases x)
  have "list_all2 (chart_for s) (difficulties s) (Charts (Settings r))"
    using convert_song_charts h x by blast
  then have "Charts (Settings r) = []" using assms by simp
  moreover have "Charts (Settings r) \<noteq> []"
    using convert_song_Inr h x by blast
  ultimately show False by simp
qed

text \<open>Each record of the song list comes from one run of the loop body, with ids counting up.\<close>

lemma convert_songs_Inr:
  assumes "convert_songs fs acc li i ss = Inr (fs', rs, li')"
  shows "\<exists>new. rs = acc @ new
           \<and> list_all2 (\<lambda>s r. \<exists>fa fb k. convert_song fa k s = Inr (fb, r)) ss new
           \<and> map rec_id new = map (\<lambda>k. i + int k) [0..<length ss]
           \<and> li' = foldl add_level_identifier li ss"
  using assms
proof (induction ss arbitrary: fs acc li i)
  case Nil
  then show ?case by simp
next
  case (Cons s ss)
  from Cons.prems obtain fs1 r where
    1: "convert_song fs i s = Inr (fs1, r)"
    and 2: "convert_songs fs1 (acc @ [r]) (add_level_identifier li s) (i + 1) ss = Inr (fs', rs, li')"
    by (auto simp: bind_eq_Inr)
  from Cons.IH[OF 2] obtain new where
    n: "rs = (acc @ [r]) @ new"
      "list_all2 (\<lambda>s r. \<exists>fa fb k. convert_song fa k s = Inr (fb, r)) ss new"
      "map rec_id new = map (\<lambda>k. i + 1 + int k) [0..<length ss]"
      "li' = foldl add_level_identifier (add_level_identifier li s) ss"
    by blast
  have id: "rec_id r = i" using convert_song_Inr[OF 1] by blast
  have "map (\<lambda>k. i + int k) [0..<length (s # ss)]
          = i # map (\<lambda>k. i + 1 + int k) [0..<length ss]"
    by (simp add: upt_rec[of 0] map_Suc_upt[symmetric] del: upt_Suc)
  then have "map rec_id (r # new) = map (\<lambda>k. i + int k) [0..<length (s # ss)]"
    using n(3) id by simp
  moreover have "list_all2 (\<lambda>s r. \<exists>fa fb k. convert_song fa k s = Inr (fb, r)) (s # ss) (r # new)"
    using n(2) 1 by auto
  moreover have "rs = acc @ (r # new)" using n(1) by simp
  moreover have "li' = foldl add_level_identifier li (s # ss)" using n(4) by simp
  ultimately show ?case by blast
qed

subsection \<open>Songs without difficulties\<close>

text \<open>
  Claim C10. The conversion of a song whose list of difficulties is empty fails: when the
  working directory can be made and the base audio and jacket are copied, the failure is
  the IndexError of reading the last chart; otherwise it is the earlier error. Hence every
  Level record that is built, by one run of the loop body or by the loop over the song
  list, has at least one chart, and its song at least one difficulty.
\<close>

theorem empty_difficulties_fail:
  "(difficulties s = [] \<longrightarrow> (\<exists>e. convert_song fs i s = Inl e))
   \<and> (difficulties s = []
        \<and> mkdir fs (song_root_path s) = Inr fs1
        \<and> copyfile fs1 (joinpath (joinpath audio_root_path (original_id s)) ''base.ogg'')
             (joinpath (song_root_path s) ''base.ogg'') = Inr fs2
        \<and> copyfile fs2 (joinpath (joinpath jacket_root_path (original_id s)) ''base.jpg'')
             (joinpath (song_root_path s) ''base.jpg'') = Inr fs3
      \<longrightarrow> convert_song fs i s = Inl IndexError)
   \<and> (convert_song fs i s = Inr (fs', r) \<longrightarrow> Charts (Settings r) \<noteq> [] \<and> difficulties s \<noteq> [])
   \<and> (convert_songs fs0 [] li0 i0 ss = Inr (fs'', rs, li') \<longrightarrow>
        (\<forall>r \<in> set rs. Charts (Settings r) \<noteq> []))"
proof -
  have 1: "difficulties s = [] \<longrightarrow> (\<exists>e. convert_song fs i s = Inl e)"
  proof
    assume "difficulties s = []"
    then have "\<And>x. convert_song fs i s \<noteq> Inr x" by (rule convert_song_empty)
    then show "\<exists>e. convert_song fs i s = Inl e" by (rule sum_cases_Inl)
  qed
  have 2: "difficulties s = []
        \<and> mkdir fs (song_root_path s) = Inr fs1
        \<and> copyfile fs1 (joinpath (joinpath audio_root_path (original_id s)) ''base.ogg'')
             (joinpath (song_root_path s) ''base.ogg'') = Inr fs2
        \<and> copyfile fs2 (joinpath (joinpath jacket_root_path (original_id s)) ''base.jpg'')
             (joinpath (song_root_path s) ''base.jpg'') = Inr fs3
      \<longrightarrow> convert_song fs i s = Inl IndexError"
    by (simp add: convert_song_def py_index_last)
  have 3: "convert_song fs i s = Inr (fs', r) \<longrightarrow> Charts (Settings r) \<noteq> [] \<and> difficulties s \<noteq> []"
  proof
    assume h: "convert_song fs i s = Inr (fs', r)"
    have "Charts (Settings r) \<noteq> []" using convert_song_Inr[OF h] by blast
    moreover have "difficulties s \<noteq> []" using convert_song_empty[of s fs i "(fs', r)"] h by blast
    ultimately show "Charts (Settings r) \<noteq> [] \<and> difficulties s \<noteq> []" by simp
  qed
  have 4: "convert_songs fs0 [] li0 i0 ss = Inr (fs'', rs, li') \<longrightarrow>
        (\<forall>r \<in> set rs. Charts (Settings r) \<noteq> [])"
  proof (intro impI ballI)
    fix r0 assume h: "convert_songs fs0 [] li0 i0 ss = Inr (fs'', rs, li')" and r0: "r0 \<in> set rs"
    from convert_songs_Inr[OF h] have
      "list_all2 (\<lambda>s r. \<exists>fa fb k. convert_song fa k s = Inr (fb, r)) ss rs" by simp
    then have "\<forall>k < length rs. \<exists>fa fb j. convert_song fa j (ss ! k) = Inr (fb, rs ! k)"
      by (simp add: list_all2_conv_all_nth)
    moreover from r0 obtain k where "k < length rs" "rs ! k = r0"
      by (auto simp: in_set_conv_nth)
    ultimately obtain fa fb j where c: "convert_song fa j (ss ! k) = Inr (fb, r0)"
      by blast
    show "Charts (Settings r0) \<noteq> []" using convert_song_Inr[OF c] by blast
  qed
  from 1 2 3 4 show ?thesis by blast
qed

lemmas song_defs = song_a_def song_b_def song_c_def song_e_def

lemma song_e_steps:
  "\<exists>fs1 fs2 fs3. mkdir fs_a (song_root_path song_e) = Inr fs1
     \<and> copyfile fs1 (joinpath (joinpath audio_root_path (original_id song_e)) ''base.ogg'')
             (joinpath (song_root_path song_e) ''base.ogg'') = Inr fs2
     \<and> copyfile fs2 (joinpath (joinpath jacket_root_path (original_id song_e)) ''base.jpg'')
             (joinpath (song_root_path song_e) ''base.jpg'') = Inr fs3"
  by (simp add: song_defs fs_a_def path_defs fs_defs upt_rec)

lemma convert_songs_single:
  "convert_song fs i s = Inr (fs', r) \<Longrightarrow>
   convert_songs fs [] li i [s] = Inr (fs', [r], add_level_identifier li s)"
  by simp

theorem empty_difficulties_fail_witness:
  "difficulties song_e = []
   \<and> convert_song fs_a 11 song_e = Inl IndexError
   \<and> (\<exists>fs' r. convert_song fs_a 11 song_a = Inr (fs', r) \<and> Charts (Settings r) \<noteq> [])
   \<and> (\<exists>fs' rs li'. convert_songs fs_a [] Map.empty 11 [song_a] = Inr (fs', rs, li')
         \<and> [] \<notin> set (map (\<lambda>r. Charts (Settings r)) rs))"
proof -
  have e: "difficulties song_e = []" by (simp add: song_e_def)
  obtain fs1 fs2 fs3 where st: "mkdir fs_a (song_root_path song_e) = Inr fs1"
     "copyfile fs1 (joinpath (joinpath audio_root_path (original_id song_e)) ''base.ogg'')
             (joinpath (song_root_path song_e) ''base.ogg'') = Inr fs2"
     "copyfile fs2 (joinpath (joinpath jacket_root_path (original_id song_e)) ''base.jpg'')
             (joinpath (song_root_path song_e) ''base.jpg'') = Inr fs3"
    using song_e_steps by blast
  obtain fs' r where h: "convert_song fs_a 11 song_a = Inr (fs', r)"
    using song_a_converted by blast
  have hs: "convert_songs fs_a [] Map.empty 11 [song_a]
              = Inr (fs', [r], add_level_identifier Map.empty song_a)"
    by (rule convert_songs_single[OF h])
  have "convert_song fs_a 11 song_e = Inl IndexError"
    using empty_difficulties_fail[where s = song_e and fs = fs_a and ?fs1.0 = fs1
        and ?fs2.0 = fs2 and ?fs3.0 = fs3 and i = 11] e st by blast
  moreover have "Charts (Settings r) \<noteq> []"
    using empty_difficulties_fail[where s = song_a and fs = fs_a and i = 11 and fs' = fs'
        and r = r] h by blast
  moreover have "\<forall>r0 \<in> set [r]. Charts (Settings r0) \<noteq> []"
    using empty_difficulties_fail[where ?fs0.0 = fs_a and ?li0.0 = Map.empty and ?i0.0 = 11
        and ss = "[song_a]" and fs'' = fs' and rs = "[r]"
        and li' = "add_level_identifier Map.empty song_a"] hs
    by blast
  then have "[] \<notin> set (map (\<lambda>r. Charts (Settings r)) [r])"
    by auto
  ultimately show ?thesis using e h hs by blast
qed

text \<open>The same for the pack list.\<close>

lemma convert_pack_Inr:
  assumes "convert_pack clock li fs i p = Inr (fs', r)"
  shows "rec_id r = i \<and> Identifier r = pack_new_id p
     \<and> py_getitem li (pack_id p) = Inr (LevelIdentifiers r)
     \<and> FileReferences r = [name (pack_cover_path p)] \<and> ImagePath r = name (pack_cover_path p)"
  using assms unfolding convert_pack_def bind_eq_Inr by auto

lemma convert_packs_Inr:
  assumes "convert_packs clock li fs acc i ps = Inr (fs', rs)"
  shows "\<exists>new. rs = acc @ new
           \<and> list_all2 (\<lambda>p r. \<exists>fa fb k. convert_pack clock li fa k p = Inr (fb, r)) ps new
           \<and> map rec_id new = map (\<lambda>k. i + int k) [0..<length ps]"
  using assms
proof (induction ps arbitrary: fs acc i)
  case Nil
  then show ?case by simp
next
  case (Cons p ps)
  from Cons.prems obtain fs1 r where
    1: "convert_pack clock li fs i p = Inr (fs1, r)"
    and 2: "convert_packs clock li fs1 (acc @ [r]) (i + 1) ps = Inr (fs', rs)"
    by (auto simp: bind_eq_Inr)
  from Cons.IH[OF 2] obtain new where
    n: "rs = (acc @ [r]) @ new"
      "list_all2 (\<lambda>p r. \<exists>fa fb k. convert_pack clock li fa k p = Inr (fb, r)) ps new"
      "map rec_id new = map (\<lambda>k. i + 1 + int k) [0..<length ps]"
    by blast
  have id: "rec_id r = i" using convert_pack_Inr[OF 1] by blast
  have "map (\<lambda>k. i + int k) [0..<length (p # ps)]
          = i # map (\<lambda>k. i + 1 + int k) [0..<length ps]"
    by (simp add: upt_rec[of 0] map_Suc_upt[symmetric] del: upt_Suc)
  then have "map rec_id (r # new) = map (\<lambda>k. i + int k) [0..<length (p # ps)]"
    using n(3) id by simp
  moreover have "list_all2 (\<lambda>p r. \<exists>fa fb k. convert_pack clock li fa k p = Inr (fb, r))
                   (p # ps) (r # new)"
    using n(2) 1 by auto
  moreover have "rs = acc @ (r # new)" using n(1) by simp
  ultimately show ?case by blast
qed

lemma distinct_ids: "distinct (map (\<lambda>k. (i::int) + int k) [0..<n])"
  by (simp add: distinct_map inj_on_def)

lemmas pack_defs = convert_pack_def pack_new_id_def pack_root_path_def pack_cover_path_def
  pack_cover_root_path_def singles_cover_path_def pack_a_def pack_z_def

lemma fixture_converted:
  "\<exists>fs1 cs li. convert_songs fs_a [] Map.empty 11 [song_a] = Inr (fs1, cs, li)
     \<and> (\<exists>fs2 cp. convert_packs (\<lambda>_. 1000) li fs1 [] 21 [pack_a] = Inr (fs2, cp))"
  by (simp add: convert_song_def convert_difficulty_def song_a_def fs_a_def path_defs fs_defs
      py_defs upt_rec pack_defs add_level_identifier_def)

lemma level_identifiers_foldl:
  "foldl add_level_identifier li ss k =
     (if filter (\<lambda>s. song_set s = k) ss = [] then li k
      else Some ((case li k of None \<Rightarrow> [] | Some l \<Rightarrow> l)
                   @ map new_id (filter (\<lambda>s. song_set s = k) ss)))"
proof (induction ss arbitrary: li)
  case Nil
  then show ?case by simp
next
  case (Cons s ss)
  show ?case
    by (simp add: Cons.IH) (simp add: add_level_identifier_def)
qed

lemma level_identifiers_built:
  assumes "convert_songs fs [] Map.empty i songs = Inr (fs1, cs, li)"
  shows "li k = (if filter (\<lambda>s. song_set s = k) songs = [] then None
                 else Some (map new_id (filter (\<lambda>s. song_set s = k) songs)))"
    and "map Identifier cs = map new_id songs"
proof -
  from convert_songs_Inr[OF assms] have
    li: "li = foldl add_level_identifier Map.empty songs"
    and l: "list_all2 (\<lambda>s r. \<exists>fa fb k. convert_song fa k s = Inr (fb, r)) songs cs"
    by simp_all
  show "li k = (if filter (\<lambda>s. song_set s = k) songs = [] then None
                 else Some (map new_id (filter (\<lambda>s. song_set s = k) songs)))"
    unfolding li level_identifiers_foldl by simp
  have "list_all2 (\<lambda>s r. Identifier r = new_id s) songs cs"
    using l
  proof (rule list_all2_mono)
    fix s r assume "\<exists>fa fb k. convert_song fa k s = Inr (fb, r)"
    then obtain fa fb k where "convert_song fa k s = Inr (fb, r)" by blast
    from convert_song_Inr[OF this] show "Identifier r = new_id s" by blast
  qed
  then show "map Identifier cs = map new_id songs"
    by (induction rule: list_all2_induct) simp_all
qed

subsection \<open>The levels of a pack\<close>

text \<open>
  Claim C5. After the songs are converted, the identifier of every Level record is
  \<^verbatim>\<open><set>.<id>\<close> of its song. When the packs are then converted, the \<^verbatim>\<open>LevelIdentifiers\<close>
  of every Pack record are exactly these identifiers of the songs whose \<^verbatim>\<open>set\<close> is the
  pack's own \<^verbatim>\<open>id\<close> (and not its \<^verbatim>\<open>pack_parent\<close>), in the order of the song list, and
  they are not empty; and when a pack of the list has no song with its \<^verbatim>\<open>id\<close> as \<^verbatim>\<open>set\<close>,
  the conversion of the packs fails.
\<close>

theorem pack_level_identifiers:
  assumes "convert_songs fs [] Map.empty i songs = Inr (fs1, cs, li)"
  shows "map Identifier cs = map (\<lambda>s. song_set s @ ''.'' @ song_id s) songs
     \<and> (convert_packs clock li fs1 [] j packs = Inr (fs2, cp) \<longrightarrow>
          length cp = length packs
          \<and> (\<forall>k < length packs.
                LevelIdentifiers (cp ! k)
                  = map (\<lambda>s. song_set s @ ''.'' @ song_id s)
                      (filter (\<lambda>s. song_set s = pack_id (packs ! k)) songs)
                \<and> LevelIdentifiers (cp ! k) \<noteq> []))
     \<and> ((\<exists>p \<in> set packs. \<forall>s \<in> set songs. song_set s \<noteq> pack_id p) \<longrightarrow>
          (\<exists>e. convert_packs clock li fs1 [] j packs = Inl e))"
proof -
  have nid: "new_id = (\<lambda>s. song_set s @ ''.'' @ song_id s)"
    by (rule ext) (simp add: new_id_def)
  have pk: "length cp = length packs
          \<and> (\<forall>k < length packs.
                li (pack_id (packs ! k)) = Some (LevelIdentifiers (cp ! k)))"
    if h: "convert_packs clock li fs1 [] j packs = Inr (fs2, cp)" for fs2 cp
  proof -
    from convert_packs_Inr[OF h] have
      l: "list_all2 (\<lambda>p r. \<exists>fa fb k. convert_pack clock li fa k p = Inr (fb, r)) packs cp"
      by simp
    have "list_all2 (\<lambda>p r. li (pack_id p) = Some (LevelIdentifiers r)) packs cp"
      using l
    proof (rule list_all2_mono)
      fix p r assume "\<exists>fa fb k. convert_pack clock li fa k p = Inr (fb, r)"
      then obtain fa fb k where "convert_pack clock li fa k p = Inr (fb, r)" by blast
      from convert_pack_Inr[OF this] have "py_getitem li (pack_id p) = Inr (LevelIdentifiers r)"
        by blast
      then show "li (pack_id p) = Some (LevelIdentifiers r)"
        by (simp add: py_getitem_def split: option.splits)
    qed
    then show ?thesis by (simp add: list_all2_conv_all_nth)
  qed
  have 1: "map Identifier cs = map (\<lambda>s. song_set s @ ''.'' @ song_id s) songs"
    using level_identifiers_built(2)[OF assms] nid by simp
  have 2: "convert_packs clock li fs1 [] j packs = Inr (fs2, cp) \<longrightarrow>
          length cp = length packs
          \<and> (\<forall>k < length packs.
                LevelIdentifiers (cp ! k)
                  = map (\<lambda>s. song_set s @ ''.'' @ song_id s)
                      (filter (\<lambda>s. song_set s = pack_id (packs ! k)) songs)
                \<and> LevelIdentifiers (cp ! k) \<noteq> [])"
  proof
    assume h: "convert_packs clock li fs1 [] j packs = Inr (fs2, cp)"
    show "length cp = length packs
          \<and> (\<forall>k < length packs.
                LevelIdentifiers (cp ! k)
                  = map (\<lambda>s. song_set s @ ''.'' @ song_id s)
                      (filter (\<lambda>s. song_set s = pack_id (packs ! k)) songs)
                \<and> LevelIdentifiers (cp ! k) \<noteq> [])"
    proof (intro conjI allI impI)
      show "length cp = length packs" using pk[OF h] by simp
    next
      fix k assume "k < length packs"
      then have "li (pack_id (packs ! k)) = Some (LevelIdentifiers (cp ! k))"
        using pk[OF h] by simp
      then show "LevelIdentifiers (cp ! k)
                  = map (\<lambda>s. song_set s @ ''.'' @ song_id s)
                      (filter (\<lambda>s. song_set s = pack_id (packs ! k)) songs)"
        and "LevelIdentifiers (cp ! k) \<noteq> []"
        unfolding level_identifiers_built(1)[OF assms] nid by (auto split: if_splits)
    qed
  qed
  have 3: "(\<exists>p \<in> set packs. \<forall>s \<in> set songs. song_set s \<noteq> pack_id p) \<longrightarrow>
          (\<exists>e. convert_packs clock li fs1 [] j packs = Inl e)"
  proof
    assume "\<exists>p \<in> set packs. \<forall>s \<in> set songs. song_set s \<noteq> pack_id p"
    then obtain k where k: "k < length packs"
      and no: "\<forall>s \<in> set songs. song_set s \<noteq> pack_id (packs ! k)"
      by (auto simp: in_set_conv_nth)
    have none: "li (pack_id (packs ! k)) = None"
      unfolding level_identifiers_built(1)[OF assms] using no by (auto simp: filter_empty_conv)
    have "convert_packs clock li fs1 [] j packs \<noteq> Inr x" for x
    proof
      assume h: "convert_packs clock li fs1 [] j packs = Inr x"
      obtain fs2 cp where "x = (fs2, cp)" by (cases x)
      with pk[of fs2 cp] h k none show False by simp
    qed
    then show "\<exists>e. convert_packs clock li fs1 [] j packs = Inl e" by (rule sum_cases_Inl)
  qed
  from 1 2 3 show ?thesis by blast
qed

lemma pack_z_no_song: "\<exists>p \<in> set [pack_z]. \<forall>s \<in> set [song_a]. song_set s \<noteq> pack_id p"
  by (simp add: pack_z_def song_a_def)

theorem pack_level_identifiers_witness:
  "\<exists>fs1 cs li fs2 cp.
     convert_songs fs_a [] Map.empty 11 [song_a] = Inr (fs1, cs, li)
     \<and> convert_packs (\<lambda>_. 1000) li fs1 [] 21 [pack_a] = Inr (fs2, cp)
     \<and> map LevelIdentifiers cp = [[''p1.s1'']]
     \<and> (\<exists>e. convert_packs (\<lambda>_. 1000) li fs1 [] 21 [pack_z] = Inl e)"
proof -
  obtain fs1 cs li fs2 cp where
    h: "convert_songs fs_a [] Map.empty 11 [song_a] = Inr (fs1, cs, li)"
    and hp: "convert_packs (\<lambda>_. 1000) li fs1 [] 21 [pack_a] = Inr (fs2, cp)"
    using fixture_converted by blast
  have "length cp = 1 \<and> LevelIdentifiers (cp ! 0) = [''p1.s1'']"
    using pack_level_identifiers[OF h, where clock = "\<lambda>_. 1000" and j = 21
        and packs = "[pack_a]" and ?fs2.0 = fs2 and cp = cp] hp
    by (simp add: pack_a_def song_a_def)
  then have m: "map LevelIdentifiers cp = [[''p1.s1'']]"
    by (cases cp) auto
  have "\<exists>e. convert_packs (\<lambda>_. 1000) li fs1 [] 21 [pack_z] = Inl e"
    using pack_level_identifiers[OF h, where clock = "\<lambda>_. 1000" and j = 21
        and packs = "[pack_z]"] pack_z_no_song by blast
  then obtain e where z: "convert_packs (\<lambda>_. 1000) li fs1 [] 21 [pack_z] = Inl e"
    by blast
  show ?thesis
    by (intro exI conjI) (rule h, rule hp, rule m, rule z)
qed

lemma py_index_names_out_of_range:
  "3 < i \<or> i < - 4 \<Longrightarrow> py_index DIFFICULTY_NAMES i = Inl IndexError"
  by (auto simp: py_index_def DIFFICULTY_NAMES_def)

lemma convert_difficulty_out_of_range:
  assumes "3 < ratingClass d \<or> ratingClass d < - 4"
  shows "convert_difficulty s st d \<noteq> Inr x"
proof
  assume h: "convert_difficulty s st d = Inr x"
  obtain fs charts bgs where st: "st = (fs, charts, bgs)" by (cases st)
  obtain fs' charts' bgs' where x: "x = (fs', charts', bgs')" by (cases x)
  from convert_difficulty_unfold[OF h[unfolded st x]] obtain c where "chart_for s d c"
    by blast
  then obtain n where "py_index DIFFICULTY_NAMES (ratingClass d) = Inr n"
    by (auto simp: chart_for_def)
  with py_index_names_out_of_range[OF assms] show False by simp
qed

subsection \<open>Rating classes and sides outside their range\<close>

text \<open>
  Claim C7, as the script has it. A rating class above 3 or below -4 is no index of the
  four difficulty names: the conversion of that difficulty, and so of its song, fails, and
  once the chart file is copied and the base bpm and the English title are read the error
  is the IndexError of the lookup. The side of a song indexes no table: a side other than 0
  and 1 is no error, and the charts of such a song carry no \<^verbatim>\<open>Skin\<close> key.
\<close>

theorem rating_class_out_of_range:
  "((3 < ratingClass d \<or> ratingClass d < - 4) \<longrightarrow> (\<exists>e. convert_difficulty s st d = Inl e))
   \<and> ((3 < ratingClass d \<or> ratingClass d < - 4)
        \<and> copyfile fs0 (joinpath (joinpath charts_root_path (original_id s))
                           (str_int (ratingClass d) @ ''.aff''))
             (joinpath (song_root_path s)
                (name (joinpath (joinpath charts_root_path (original_id s))
                         (str_int (ratingClass d) @ ''.aff'')))) = Inr fs1
        \<and> py_float (bpm_base s) = Inr b
        \<and> py_getitem (title_localized s) ''en'' = Inr t
      \<longrightarrow> convert_difficulty s (fs0, charts, bgs) d = Inl IndexError)
   \<and> ((\<exists>d \<in> set (difficulties s). 3 < ratingClass d \<or> ratingClass d < - 4) \<longrightarrow>
        (\<exists>e. convert_song fs i s = Inl e))
   \<and> (convert_song fs i s = Inr (fs', r) \<and> side s \<noteq> 0 \<and> side s \<noteq> 1 \<longrightarrow>
        (\<forall>c \<in> set (Charts (Settings r)). Skin c = None))"
proof -
  have 1: "(3 < ratingClass d \<or> ratingClass d < - 4) \<longrightarrow> (\<exists>e. convert_difficulty s st d = Inl e)"
  proof
    assume "3 < ratingClass d \<or> ratingClass d < - 4"
    then have "\<And>x. convert_difficulty s st d \<noteq> Inr x"
      by (rule convert_difficulty_out_of_range)
    then show "\<exists>e. convert_difficulty s st d = Inl e" by (rule sum_cases_Inl)
  qed
  have 2: "(3 < ratingClass d \<or> ratingClass d < - 4)
        \<and> copyfile fs0 (joinpath (joinpath charts_root_path (original_id s))
                           (str_int (ratingClass d) @ ''.aff''))
             (joinpath (song_root_path s)
                (name (joinpath (joinpath charts_root_path (original_id s))
                         (str_int (ratingClass d) @ ''.aff'')))) = Inr fs1
        \<and> py_float (bpm_base s) = Inr b
        \<and> py_getitem (title_localized s) ''en'' = Inr t
      \<longrightarrow> convert_difficulty s (fs0, charts, bgs) d = Inl IndexError"
    using py_index_names_out_of_range[of "ratingClass d"]
    by (simp add: convert_difficulty_def Let_def)
  have 3: "(\<exists>d \<in> set (difficulties s). 3 < ratingClass d \<or> ratingClass d < - 4) \<longrightarrow>
        (\<exists>e. convert_song fs i s = Inl e)"
  proof
    assume "\<exists>d \<in> set (difficulties s). 3 < ratingClass d \<or> ratingClass d < - 4"
    then obtain k where k: "k < length (difficulties s)"
      and o: "3 < ratingClass (difficulties s ! k) \<or> ratingClass (difficulties s ! k) < - 4"
      by (auto simp: in_set_conv_nth)
    have "convert_song fs i s \<noteq> Inr x" for x
    proof
      assume h: "convert_song fs i s = Inr x"
      obtain fs' r where x: "x = (fs', r)" by (cases x)
      have "list_all2 (chart_for s) (difficulties s) (Charts (Settings r))"
        using convert_song_charts h x by blast
      then have "chart_for s (difficulties s ! k) (Charts (Settings r) ! k)"
        using k by (simp add: list_all2_conv_all_nth)
      then obtain n where "py_index DIFFICULTY_NAMES (ratingClass (difficulties s ! k)) = Inr n"
        by (auto simp: chart_for_def)
      with py_index_names_out_of_range[OF o] show False by simp
    qed
    then show "\<exists>e. convert_song fs i s = Inl e" by (rule sum_cases_Inl)
  qed
  have 4: "convert_song fs i s = Inr (fs', r) \<and> side s \<noteq> 0 \<and> side s \<noteq> 1 \<longrightarrow>
        (\<forall>c \<in> set (Charts (Settings r)). Skin c = None)"
  proof (intro impI ballI)
    fix c assume a: "convert_song fs i s = Inr (fs', r) \<and> side s \<noteq> 0 \<and> side s \<noteq> 1"
      and c: "c \<in> set (Charts (Settings r))"
    have "list_all2 (chart_for s) (difficulties s) (Charts (Settings r))"
      using convert_song_charts a by blast
    then have "\<forall>k < length (Charts (Settings r)). chart_for s (difficulties s ! k) (Charts (Settings r) ! k)"
      by (simp add: list_all2_conv_all_nth)
    moreover from c obtain k where "k < length (Charts (Settings r))" "Charts (Settings r) ! k = c"
      by (auto simp: in_set_conv_nth)
    ultimately have "chart_for s (difficulties s ! k) c" by auto
    then show "Skin c = None" using a by (simp add: chart_for_def)
  qed
  from 1 2 3 4 show ?thesis by blast
qed

lemma song_b_converted: "\<exists>fs' r. convert_song fs_b 1 song_b = Inr (fs', r)"
  by (simp add: convert_song_def convert_difficulty_def song_defs fs_b_def path_defs fs_defs
      py_defs upt_rec)

theorem rating_class_counterexample:
  "ratingClass (hd (difficulties song_b)) \<notin> {0, 1, 2, 3}
   \<and> side song_b \<notin> {0, 1}
   \<and> \<not> isl (convert_song fs_b 1 song_b)
   \<and> map Difficulty (Charts (Settings (snd (projr (convert_song fs_b 1 song_b))))) = [''Beyond 3'']
   \<and> map Skin (Charts (Settings (snd (projr (convert_song fs_b 1 song_b))))) = [None]"
proof -
  obtain fs' r where h: "convert_song fs_b 1 song_b = Inr (fs', r)"
    using song_b_converted by blast
  have l: "list_all2 (chart_for song_b) (difficulties song_b) (Charts (Settings r))"
    by (rule convert_song_charts[OF h])
  have "length (Charts (Settings r)) = 1"
    using list_all2_lengthD[OF l] by (simp add: song_defs)
  then obtain c where c: "Charts (Settings r) = [c]"
    by (auto simp: length_Suc_conv)
  have "chart_for song_b (hd (difficulties song_b)) c"
    using l c by (simp add: song_defs)
  then have "Difficulty c = ''Beyond 3''" "Skin c = None"
    by (simp_all add: chart_for_def song_defs py_defs)
  then show ?thesis using h c by (simp add: song_defs)
qed

lemma song_c_chart_copied:
  "\<exists>fs1. copyfile fs_c (joinpath (joinpath charts_root_path (original_id song_c))
                           (str_int (ratingClass (hd (difficulties song_c))) @ ''.aff''))
             (joinpath (song_root_path song_c)
                (name (joinpath (joinpath charts_root_path (original_id song_c))
                         (str_int (ratingClass (hd (difficulties song_c))) @ ''.aff'')))) = Inr fs1"
  by (simp add: song_defs fs_c_def fs_b_def path_defs fs_defs py_defs)

theorem rating_class_out_of_range_witness:
  "3 < ratingClass (hd (difficulties song_c))
   \<and> convert_difficulty song_c (fs_c, [], []) (hd (difficulties song_c)) = Inl IndexError
   \<and> (\<exists>e. convert_song fs_b 1 song_c = Inl e)
   \<and> (\<exists>fs' r. convert_song fs_b 1 song_b = Inr (fs', r)
         \<and> map Skin (Charts (Settings r)) = [None])"
proof -
  let ?d = "hd (difficulties song_c)"
  have d: "3 < ratingClass ?d" "?d \<in> set (difficulties song_c)"
    by (simp_all add: song_defs)
  obtain fs1 where c: "copyfile fs_c (joinpath (joinpath charts_root_path (original_id song_c))
                           (str_int (ratingClass ?d) @ ''.aff''))
             (joinpath (song_root_path song_c)
                (name (joinpath (joinpath charts_root_path (original_id song_c))
                         (str_int (ratingClass ?d) @ ''.aff'')))) = Inr fs1"
    using song_c_chart_copied by blast
  have f: "py_float (bpm_base song_c) = Inr (Float 120)"
    "py_getitem (title_localized song_c) ''en'' = Inr ''T''"
    by (simp_all add: song_defs py_float_def py_getitem_def)
  have 1: "convert_difficulty song_c (fs_c, [], []) ?d = Inl IndexError"
    using rating_class_out_of_range[where d = ?d and s = song_c and ?fs0.0 = fs_c
        and ?fs1.0 = fs1 and b = "Float 120" and t = "''T''" and charts = "[]" and bgs = "[]"]
      d c f by blast
  have "\<exists>e. convert_song fs_b 1 song_c = Inl e"
    using rating_class_out_of_range[where s = song_c and fs = fs_b and i = 1] d by blast
  then obtain e where 2: "convert_song fs_b 1 song_c = Inl e" by blast
  obtain fs' r where h: "convert_song fs_b 1 song_b = Inr (fs', r)"
    using song_b_converted by blast
  have sd: "side song_b \<noteq> 0" "side song_b \<noteq> 1" by (simp_all add: song_defs)
  have "\<forall>c \<in> set (Charts (Settings r)). Skin c = None"
    using rating_class_out_of_range[where s = song_b and fs = fs_b and i = 1 and fs' = fs'
        and r = r] h sd by blast
  moreover have "length (Charts (Settings r)) = 1"
    using list_all2_lengthD[OF convert_song_charts[OF h]] by (simp add: song_defs)
  ultimately have 3: "map Skin (Charts (Settings r)) = [None]"
    by (auto simp: length_Suc_conv)
  show ?thesis
    by (intro exI conjI) (rule d(1), rule 1, rule 2, rule h, rule 3)
qed

lemma lookup_append_Dir:
  "lookup (fs @ [(d, Dir)]) p = (case lookup fs p of Some n \<Rightarrow> Some n
                                 | None \<Rightarrow> if p = d then Some Dir else None)"
  by (auto simp: lookup_def map_add_def split: option.splits)

lemma mkdirs_file_content:
  "mkdirs fs ds = Inr fs' \<Longrightarrow> file_content fs' p = file_content fs p"
proof (induction ds arbitrary: fs)
  case Nil
  then show ?case by simp
next
  case (Cons d ds)
  show ?case
  proof (cases "lookup fs d")
    case None
    with Cons.prems have "mkdirs (fs @ [(d, Dir)]) ds = Inr fs'" by simp
    from Cons.IH[OF this] have "file_content fs' p = file_content (fs @ [(d, Dir)]) p" .
    also have "\<dots> = file_content fs p"
      using None by (auto simp: file_content_def lookup_append_Dir split: option.splits)
    finally show ?thesis .
  next
    case (Some n)
    with Cons.prems have "mkdirs fs ds = Inr fs'" by (cases n) auto
    from Cons.IH[OF this] show ?thesis .
  qed
qed

lemma mkdir_file_content:
  "mkdir fs d = Inr fs' \<Longrightarrow> file_content fs' p = file_content fs p"
  unfolding mkdir_def by (rule mkdirs_file_content)





lemma hex_digit_in: "n < 16 \<Longrightarrow> hex_digit n \<in> set ''0123456789abcdef''"
  unfolding hex_digit_def by (rule nth_mem) simp

lemma unat_and_15: "unat ((w :: 32 word) AND 15) < 16"
proof -
  have "unat (w AND 15) \<le> unat (15 :: 32 word)"
    by (rule word_and_le1 [THEN word_le_nat_alt [THEN iffD1]])
  then show ?thesis by simp
qed

lemma hex32_chars: "set (hex32 w) \<subseteq> set ''0123456789abcdef''"
  unfolding hex32_def using hex_digit_in[OF unat_and_15] by auto

lemma hex32_length: "length (hex32 w) = 8"
  by (simp add: hex32_def)

lemma hexdigest_length: "length (hexdigest h) = 40"
  by (cases h) (simp add: hexdigest_def hex32_length)

lemma hexdigest_chars: "set (hexdigest h) \<subseteq> set ''0123456789abcdef''"
  by (cases h) (use hex32_chars in \<open>auto simp: hexdigest_def\<close>)

lemma hexdigest_no_sep: "CHR ''/'' \<notin> set (hexdigest h)" "CHR ''.'' \<notin> set (hexdigest h)"
  using hexdigest_chars[of h] by auto

lemma hexdigest_nonempty: "hexdigest h \<noteq> []"
  using hexdigest_length[of h] by auto

lemma split_sep_no_sep: "CHR ''/'' \<notin> set s \<Longrightarrow> split_sep s = [s]"
  by (induction s) auto

lemma joinpath_part:
  assumes "CHR ''/'' \<notin> set s" and "s \<noteq> []" and "s \<noteq> ''.''"
  shows "joinpath p s = p @ [s]"
proof -
  have "hd s \<noteq> CHR ''/''" using assms(1,2) by (cases s) auto
  then have "splitroot s = ([], s)" by (simp add: splitroot_def)
  then show ?thesis using assms by (simp add: joinpath_def parse_parts_def split_sep_no_sep)
qed

lemma suffix_of_cases:
  "suffix_of nm = [] \<or> (\<exists>r. suffix_of nm = CHR ''.'' # r \<and> r \<noteq> [] \<and> CHR ''.'' \<notin> set r)"
proof (cases "CHR ''.'' \<in> set nm \<and> takeWhile (\<lambda>c. c \<noteq> CHR ''.'') (rev nm) \<noteq> []
               \<and> length (takeWhile (\<lambda>c. c \<noteq> CHR ''.'') (rev nm)) + 1 < length nm")
  case False
  then show ?thesis by (auto simp: suffix_of_def Let_def)
next
  case True
  let ?r = "takeWhile (\<lambda>c. c \<noteq> CHR ''.'') (rev nm)"
  let ?d = "dropWhile (\<lambda>c. c \<noteq> CHR ''.'') (rev nm)"
  have "?d \<noteq> []" using True by (auto simp: dropWhile_eq_Nil_conv)
  moreover have "hd ?d = CHR ''.''" using hd_dropWhile[OF \<open>?d \<noteq> []\<close>] by simp
  ultimately obtain rest where d: "?d = CHR ''.'' # rest" by (cases ?d) auto
  have "rev nm = ?r @ CHR ''.'' # rest" using takeWhile_dropWhile_id[of _ "rev nm"] d by metis
  then have nm: "nm = rev rest @ CHR ''.'' # rev ?r"
    by (metis rev_rev_ident rev_append rev.simps(2) append.assoc append_Cons append_Nil)
  have len: "length nm - length ?r - 1 = length (rev rest)"
    by (subst nm) simp
  have "suffix_of nm = drop (length nm - length ?r - 1) nm"
    using True by (simp add: suffix_of_def Let_def)
  also have "\<dots> = CHR ''.'' # rev ?r"
    unfolding len by (subst nm) simp
  finally have "suffix_of nm = CHR ''.'' # rev ?r" .
  moreover have "rev ?r \<noteq> []" using True by simp
  moreover have "CHR ''.'' \<notin> set (rev ?r)"
    using set_takeWhileD[of "CHR ''.''" "\<lambda>c. c \<noteq> CHR ''.''" "rev nm"] by auto
  ultimately show ?thesis by blast
qed

lemma suffix_of_no_dot: "CHR ''.'' \<notin> set nm \<Longrightarrow> suffix_of nm = []"
  by (simp add: suffix_of_def)

lemma suffix_of_append:
  assumes "CHR ''.'' \<notin> set h" and "h \<noteq> []" and "r \<noteq> []" and "CHR ''.'' \<notin> set r"
  shows "suffix_of (h @ CHR ''.'' # r) = CHR ''.'' # r"
proof -
  have t: "takeWhile (\<lambda>c. c \<noteq> CHR ''.'') (rev (h @ CHR ''.'' # r)) = rev r"
    using assms(4) by (auto simp: takeWhile_append2 takeWhile_tail)
  show ?thesis
    unfolding suffix_of_def Let_def t using assms(2,3) by simp
qed

lemma suffix_of_stored:
  assumes "CHR ''.'' \<notin> set h" and "h \<noteq> []"
  shows "suffix_of (h @ suffix_of nm) = suffix_of nm"
  using suffix_of_cases[of nm] suffix_of_no_dot[OF assms(1)] suffix_of_append[OF assms]
  by auto

lemma suffix_of_subset: "set (suffix_of nm) \<subseteq> set nm"
  by (auto simp: suffix_of_def Let_def dest: in_set_dropD)

lemma storage_root_path_eq: "storage_root_path = [''final'', ''storage'']"
  by (simp add: storage_root_path_def path_defs)

lemma stored_name_part:
  assumes "CHR ''/'' \<notin> set (name p)"
  shows "CHR ''/'' \<notin> set (stored_name data p)" "stored_name data p \<noteq> []"
    "stored_name data p \<noteq> ''.''"
proof -
  have "CHR ''/'' \<notin> set (path_suffix p)"
    using assms suffix_of_subset[of "name p"] by (auto simp: path_suffix_def)
  then show "CHR ''/'' \<notin> set (stored_name data p)"
    using hexdigest_no_sep(1) by (simp add: stored_name_def)
  have "40 \<le> length (stored_name data p)"
    by (simp add: stored_name_def hexdigest_length)
  then show "stored_name data p \<noteq> []" "stored_name data p \<noteq> ''.''" by auto
qed

lemma file_hash_path_eq:
  assumes "CHR ''/'' \<notin> set (name p)"
  shows "file_hash_path data p = storage_root_path @ [stored_name data p]"
    and "name (file_hash_path data p) = stored_name data p"
proof -
  show 1: "file_hash_path data p = storage_root_path @ [stored_name data p]"
    unfolding file_hash_path_def stored_name_def[symmetric]
    by (rule joinpath_part) (rule stored_name_part[OF assms])+
  show "name (file_hash_path data p) = stored_name data p"
    unfolding 1 by (simp add: name_def is_anchor_def storage_root_path_eq)
qed

lemma file_content_Some: "file_content fs p = Some b \<longleftrightarrow> lookup fs p = Some (File b)"
  by (auto simp: file_content_def split: option.splits node.splits)

lemma file_content_special: "p = [] \<or> is_anchor p \<Longrightarrow> file_content fs p = None"
  by (simp add: file_content_def lookup_def)

lemma is_file_content: "is_file fs p \<longleftrightarrow> file_content fs p \<noteq> None"
  by (auto simp: is_file_def file_content_def split: option.splits node.splits)

lemma read_file_content: "read_file fs p = Inr b \<longleftrightarrow> file_content fs p = Some b"
  by (auto simp: read_file_def file_content_def split: option.splits node.splits)

lemma rename_lookup:
  assumes "rename fs src dst = Inr fs'" and "src \<noteq> dst" and "dst \<noteq> []" and "\<not> is_anchor dst"
    and "src \<noteq> []" and "\<not> is_anchor src"
  shows "lookup fs' q = (if q = dst then lookup fs src else if q = src then None else lookup fs q)"
proof -
  from assms(1) obtain n where n: "lookup fs src = Some n"
    and f: "fs' = AList.update dst n (AList.delete src fs)"
    by (auto simp: rename_def split: option.splits if_splits)
  show ?thesis
    using assms(2-6) n unfolding f
    by (auto simp: lookup_def update_conv' delete_conv')
qed

lemma move_file_step:
  assumes m: "move_file (fs, cf) p = Inr (fs', cf')"
    and w: "file_content fs p \<noteq> None \<longrightarrow> CHR ''/'' \<notin> set (name p)"
  shows "(file_content fs p = None \<longrightarrow> fs' = fs \<and> cf' = cf)
     \<and> (\<forall>data. file_content fs p = Some data \<longrightarrow>
           prefix final_path p \<and> cf' = cf @ [file_record data p]
         \<and> (if exists fs (storage_root_path @ [stored_name data p]) then fs' = fs
            else (\<forall>q. lookup fs' q
                        = (if q = storage_root_path @ [stored_name data p] then Some (File data)
                           else if q = p then None else lookup fs q))))"
proof (intro conjI allI impI)
  assume "file_content fs p = None"
  then have "\<not> is_file fs p" by (simp add: is_file_content)
  with m show "fs' = fs" "cf' = cf" by (simp_all add: move_file_def)
next
  fix data assume d: "file_content fs p = Some data"
  then have f: "is_file fs p" by (simp add: is_file_content)
  have r: "read_file fs p = Inr data" using d by (simp add: read_file_content)
  have ns: "CHR ''/'' \<notin> set (name p)" using w d by simp
  note h = file_hash_path_eq[OF ns, of data]
  from m f obtain rel fs1 where
    rel: "relative_to p final_path = Inr rel"
    and mv: "(if \<not> exists fs (file_hash_path data p)
              then rename fs p (file_hash_path data p) else Inr fs) = Inr fs1"
    and res: "fs' = fs1" "cf' = cf @ [\<lparr>file_id = as_posix rel,
          RealPath = name (file_hash_path data p),
          CorrectHashPath = name (file_hash_path data p)\<rparr>]"
    unfolding move_file_def by (auto simp: bind_eq_Inr r)
  from rel have pre: "prefix final_path p" and rl: "rel = drop (length final_path) p"
    by (auto simp: relative_to_def split: if_splits)
  show "prefix final_path p" by (rule pre)
  show "cf' = cf @ [file_record data p]"
    unfolding res(2) file_record_def h(2) rl by simp
  show "if exists fs (storage_root_path @ [stored_name data p]) then fs' = fs
        else (\<forall>q. lookup fs' q
                    = (if q = storage_root_path @ [stored_name data p] then Some (File data)
                       else if q = p then None else lookup fs q))"
  proof (cases "exists fs (storage_root_path @ [stored_name data p])")
    case True
    then show ?thesis using mv res(1) h(1) by simp
  next
    case False
    have ps: "p \<noteq> []" "\<not> is_anchor p"
      using d file_content_special[of p fs] by auto
    have ne: "p \<noteq> storage_root_path @ [stored_name data p]"
      using False d by (auto simp: exists_def file_content_Some)
    have rn: "rename fs p (storage_root_path @ [stored_name data p]) = Inr fs'"
      using mv False h(1) res(1) by simp
    have "lookup fs' q
                    = (if q = storage_root_path @ [stored_name data p] then Some (File data)
                       else if q = p then None else lookup fs q)" for q
      using rename_lookup[OF rn ne _ _ ps, of q] d
      by (simp add: is_anchor_def storage_root_path_eq file_content_Some)
    then show ?thesis using False by simp
  qed
qed

lemma file_content_lookup_eq: "lookup fs1 q = lookup fs q \<Longrightarrow> file_content fs1 q = file_content fs q"
  by (simp add: file_content_def)

lemma exists_lookup_eq: "lookup fs1 q = lookup fs q \<Longrightarrow> exists fs1 q = exists fs q"
  by (simp add: exists_def)

lemma store_ok_suffix:
  assumes "CHR ''/'' \<notin> set (name p)"
  shows "stored_name data p = hexdigest (sha1 data) @ suffix_of (stored_name data p)"
  unfolding stored_name_def path_suffix_def
  using suffix_of_stored[OF hexdigest_no_sep(2) hexdigest_nonempty, of "sha1 data" "name p"]
  by simp

lemma move_file_moved:
  assumes m: "move_file (fs, cf) p = Inr (fs1, cf1)"
    and w: "file_content fs p \<noteq> None \<longrightarrow> CHR ''/'' \<notin> set (name p)"
    and ns: "\<not> prefix storage_root_path p"
  shows "moved fs cf [p] fs1 cf1"
proof (cases "file_content fs p")
  case None
  with move_file_step[OF m w] have "fs1 = fs" "cf1 = cf" by simp_all
  then show ?thesis using None by (simp add: moved_def)
next
  case (Some data)
  let ?dst = "storage_root_path @ [stored_name data p]"
  from move_file_step[OF m w] Some have
    c: "cf1 = cf @ [file_record data p]"
    and l: "if exists fs ?dst then fs1 = fs
            else (\<forall>q. lookup fs1 q = (if q = ?dst then Some (File data)
                                       else if q = p then None else lookup fs q))"
    by simp_all
  have slash: "CHR ''/'' \<notin> set (name p)" using w Some by simp
  have A: "cf1 = cf @ map (\<lambda>p. file_record (the (file_content fs p)) p)
                 (filter (\<lambda>p. file_content fs p \<noteq> None) [p])"
    using c Some by simp
  show ?thesis
  proof (cases "exists fs ?dst")
    case True
    with l have "fs1 = fs" by simp
    then show ?thesis using A True Some by (simp add: moved_def)
  next
    case False
    with l have lk: "\<And>q. lookup fs1 q = (if q = ?dst then Some (File data)
                                       else if q = p then None else lookup fs q)"
      by simp
    have B: "\<forall>q. q \<notin> set [p] \<and> \<not> prefix storage_root_path q \<longrightarrow> lookup fs1 q = lookup fs q"
      using lk by auto
    have C: "\<forall>p' \<in> set [p]. \<forall>data'. file_content fs p' = Some data' \<longrightarrow>
           exists fs1 (storage_root_path @ [stored_name data' p'])"
      using lk[of ?dst] Some by (simp add: exists_def)
    have D: "store_ok fs \<longrightarrow> store_ok fs1"
    proof
      assume ok: "store_ok fs"
      show "store_ok fs1"
        unfolding store_ok_def
      proof (intro allI impI)
        fix n b assume h: "file_content fs1 (storage_root_path @ [n]) = Some b"
        show "n = hexdigest (sha1 b) @ suffix_of n"
        proof (cases "n = stored_name data p")
          case True
          with h lk[of ?dst] have "b = data" by (simp add: file_content_Some)
          then show ?thesis using True store_ok_suffix[OF slash, of data] by simp
        next
          case False
          with h lk[of "storage_root_path @ [n]"]
          have "file_content fs (storage_root_path @ [n]) = Some b"
            by (simp add: file_content_Some split: if_splits)
          with ok show ?thesis by (simp add: store_ok_def)
        qed
      qed
    qed
    have E: "\<forall>q. prefix storage_root_path q \<and> exists fs q \<longrightarrow> lookup fs1 q = lookup fs q"
    proof (intro allI impI)
      fix q assume q: "prefix storage_root_path q \<and> exists fs q"
      then have "q \<noteq> ?dst" using False by auto
      moreover have "q \<noteq> p" using q ns by auto
      ultimately show "lookup fs1 q = lookup fs q" using lk[of q] by simp
    qed
    from A B C D E show ?thesis unfolding moved_def by blast
  qed
qed

lemma moved_Nil: "moved fs cf [] fs cf"
  by (simp add: moved_def)

lemma moved_Cons:
  assumes 1: "moved fs cf [p] fs1 cf1" and 2: "moved fs1 cf1 rest fs' cf'"
    and np: "p \<notin> set rest" and ns: "\<forall>q \<in> set (p # rest). \<not> prefix storage_root_path q"
  shows "moved fs cf (p # rest) fs' cf'"
proof -
  have A1: "cf1 = cf @ map (\<lambda>p. file_record (the (file_content fs p)) p)
                 (filter (\<lambda>p. file_content fs p \<noteq> None) [p])"
    and B1: "\<forall>q. q \<notin> set [p] \<and> \<not> prefix storage_root_path q \<longrightarrow> lookup fs1 q = lookup fs q"
    using 1 unfolding moved_def by blast+
  have A2: "cf' = cf1 @ map (\<lambda>p. file_record (the (file_content fs1 p)) p)
                 (filter (\<lambda>p. file_content fs1 p \<noteq> None) rest)"
    and B2: "\<forall>q. q \<notin> set rest \<and> \<not> prefix storage_root_path q \<longrightarrow> lookup fs' q = lookup fs1 q"
    using 2 unfolding moved_def by blast+
  have same: "lookup fs1 q = lookup fs q" if "q \<in> set rest" for q
  proof -
    have "q \<noteq> p" using that np by auto
    moreover have "\<not> prefix storage_root_path q" using that ns by simp
    ultimately show ?thesis using B1 by simp
  qed
  have fc: "file_content fs1 q = file_content fs q" if "q \<in> set rest" for q
    using same[OF that] by (rule file_content_lookup_eq)
  have f: "filter (\<lambda>p. file_content fs1 p \<noteq> None) rest
             = filter (\<lambda>p. file_content fs p \<noteq> None) rest"
    by (rule filter_cong) (simp_all add: fc)
  have m: "map (\<lambda>p. file_record (the (file_content fs1 p)) p)
                 (filter (\<lambda>p. file_content fs p \<noteq> None) rest)
         = map (\<lambda>p. file_record (the (file_content fs p)) p)
                 (filter (\<lambda>p. file_content fs p \<noteq> None) rest)"
    by (rule map_cong) (simp_all add: fc)
  have A: "cf' = cf @ map (\<lambda>p. file_record (the (file_content fs p)) p)
                 (filter (\<lambda>p. file_content fs p \<noteq> None) (p # rest))"
    unfolding A2 A1 f m by simp
  have B: "\<forall>q. q \<notin> set (p # rest) \<and> \<not> prefix storage_root_path q \<longrightarrow> lookup fs' q = lookup fs q"
    using B1 B2 by simp
  have E1: "\<And>q. prefix storage_root_path q \<Longrightarrow> exists fs q \<Longrightarrow> lookup fs1 q = lookup fs q"
    using 1 unfolding moved_def by blast
  have E2: "\<And>q. prefix storage_root_path q \<Longrightarrow> exists fs1 q \<Longrightarrow> lookup fs' q = lookup fs1 q"
    using 2 unfolding moved_def by blast
  have E: "\<forall>q. prefix storage_root_path q \<and> exists fs q \<longrightarrow> lookup fs' q = lookup fs q"
  proof (intro allI impI)
    fix q assume q: "prefix storage_root_path q \<and> exists fs q"
    then have a: "lookup fs1 q = lookup fs q" using E1 by blast
    then have "exists fs1 q" using q by (simp add: exists_def)
    then have "lookup fs' q = lookup fs1 q" using E2 q by blast
    with a show "lookup fs' q = lookup fs q" by simp
  qed
  have C: "\<forall>p' \<in> set (p # rest). \<forall>data. file_content fs p' = Some data \<longrightarrow>
           exists fs' (storage_root_path @ [stored_name data p'])"
  proof (intro ballI allI impI)
    fix p' data assume p': "p' \<in> set (p # rest)" and d: "file_content fs p' = Some data"
    show "exists fs' (storage_root_path @ [stored_name data p'])"
    proof (cases "p' = p")
      case True
      then have e: "exists fs1 (storage_root_path @ [stored_name data p'])"
        using 1 d unfolding moved_def by simp
      then have "lookup fs' (storage_root_path @ [stored_name data p'])
                  = lookup fs1 (storage_root_path @ [stored_name data p'])"
        using E2 by simp
      with e show ?thesis by (simp add: exists_def)
    next
      case False
      then have r: "p' \<in> set rest" using p' by simp
      then have "file_content fs1 p' = Some data" using d fc by simp
      then show ?thesis using 2 r unfolding moved_def by blast
    qed
  qed
  have D: "store_ok fs \<longrightarrow> store_ok fs'"
    using 1 2 unfolding moved_def by blast
  from A B C D E show ?thesis unfolding moved_def by blast
qed

lemma move_listed_moved:
  assumes "move_listed (fs, cf) files = Inr (fs', cf')"
    and "distinct files"
    and "\<forall>p \<in> set files. (file_content fs p \<noteq> None \<longrightarrow> CHR ''/'' \<notin> set (name p))
                           \<and> \<not> prefix storage_root_path p"
  shows "moved fs cf files fs' cf'"
  using assms
proof (induction files arbitrary: fs cf)
  case Nil
  then show ?case by (simp add: moved_Nil)
next
  case (Cons p rest)
  from Cons.prems(1) obtain fs1 cf1 where
    1: "move_file (fs, cf) p = Inr (fs1, cf1)"
    and 2: "move_listed (fs1, cf1) rest = Inr (fs', cf')"
    by (auto simp: bind_eq_Inr)
  have w: "file_content fs p \<noteq> None \<longrightarrow> CHR ''/'' \<notin> set (name p)"
    and ns: "\<not> prefix storage_root_path p"
    using Cons.prems(3) by simp_all
  have m1: "moved fs cf [p] fs1 cf1"
    by (rule move_file_moved[OF 1 w ns])
  have np: "p \<notin> set rest" and dr: "distinct rest" using Cons.prems(2) by simp_all
  have nsr: "\<forall>q \<in> set rest. \<not> prefix storage_root_path q"
    and wr: "\<forall>q \<in> set rest. file_content fs q \<noteq> None \<longrightarrow> CHR ''/'' \<notin> set (name q)"
    using Cons.prems(3) by simp_all
  have B1: "\<forall>q. q \<notin> set [p] \<and> \<not> prefix storage_root_path q \<longrightarrow> lookup fs1 q = lookup fs q"
    using m1 unfolding moved_def by blast
  have same: "lookup fs1 q = lookup fs q" if "q \<in> set rest" for q
  proof -
    have "q \<noteq> p" using that np by auto
    moreover have "\<not> prefix storage_root_path q" using that nsr by blast
    ultimately show ?thesis using B1 by simp
  qed
  have "\<forall>q \<in> set rest. (file_content fs1 q \<noteq> None \<longrightarrow> CHR ''/'' \<notin> set (name q))
                           \<and> \<not> prefix storage_root_path q"
  proof (intro ballI conjI impI)
    fix q assume q: "q \<in> set rest"
    show "\<not> prefix storage_root_path q" using q nsr by blast
    assume "file_content fs1 q \<noteq> None"
    then have "file_content fs q \<noteq> None"
      using file_content_lookup_eq[OF same[OF q]] by simp
    then show "CHR ''/'' \<notin> set (name q)" using wr q by blast
  qed
  from Cons.IH[OF 2 dr this] have m2: "moved fs1 cf1 rest fs' cf'" .
  have "\<forall>q \<in> set (p # rest). \<not> prefix storage_root_path q"
    using ns nsr by simp
  then show ?case
    by (rule moved_Cons[OF m1 m2 np])
qed

lemma glob_all_distinct: "distinct (glob_all fs d)"
  by (simp add: glob_all_def entries_def)

lemma glob_all_under: "p \<in> set (glob_all fs d) \<Longrightarrow> strict_prefix d p"
  by (auto simp: glob_all_def split: if_splits)

lemma glob_all_complete:
  assumes "is_dir fs d" and "file_content fs p \<noteq> None" and "strict_prefix d p"
  shows "p \<in> set (glob_all fs d)"
proof -
  from assms(2) obtain b where "lookup fs p = Some (File b)"
    by (auto simp: file_content_Some)
  then have "map_of fs p = Some (File b)"
    by (auto simp: lookup_def split: if_splits)
  then have "p \<in> set (map fst fs)"
    by (metis map_of_SomeD fst_conv image_eqI set_map)
  then show ?thesis using assms(1,3) by (simp add: glob_all_def entries_def)
qed

lemma map_of_filter_prefix:
  "map_of (filter (\<lambda>(p, n). \<not> prefix d p) fs) q = (if prefix d q then None else map_of fs q)"
  by (induction fs) auto

lemma rmtree_lookup:
  assumes "rmtree fs d = Inr fs'"
  shows "is_dir fs d"
    and "lookup fs' q = (if q = [] \<or> is_anchor q then Some Dir
                         else if prefix d q then None else lookup fs q)"
  using assms
  by (auto simp: rmtree_def is_dir_def lookup_def map_of_filter_prefix
      split: option.splits node.splits)

lemma move_type_moved:
  assumes mt: "move_type (fs, cf) type_name = Inr (fs'', cf'')"
    and d: "d = joinpath final_path type_name"
    and inc: "\<not> prefix d storage_root_path" "\<not> prefix storage_root_path d"
    and wf: "\<forall>p. strict_prefix d p \<and> file_content fs p \<noteq> None \<longrightarrow> CHR ''/'' \<notin> set (name p)"
  shows "type_moved d fs cf fs'' cf''"
proof -
  from mt obtain fs' where
    ml: "move_listed (fs, cf) (glob_all fs d) = Inr (fs', cf'')"
    and rm: "rmtree fs' d = Inr fs''"
    unfolding move_type_def d by (auto simp: bind_eq_Inr)
  have nst: "\<not> prefix storage_root_path p" if "strict_prefix d p" for p
  proof
    assume "prefix storage_root_path p"
    moreover have "prefix d p" using that by (simp add: strict_prefix_def)
    ultimately have "prefix d storage_root_path \<or> prefix storage_root_path d"
      using prefix_same_cases by blast
    with inc show False by simp
  qed
  have nst2: "\<not> prefix d q" if "prefix storage_root_path q" for q
  proof
    assume "prefix d q"
    with that have "prefix d storage_root_path \<or> prefix storage_root_path d"
      using prefix_same_cases by blast
    with inc show False by simp
  qed
  have "\<forall>p \<in> set (glob_all fs d). (file_content fs p \<noteq> None \<longrightarrow> CHR ''/'' \<notin> set (name p))
                           \<and> \<not> prefix storage_root_path p"
    using wf nst glob_all_under by blast
  from move_listed_moved[OF ml glob_all_distinct this] have m: "moved fs cf (glob_all fs d) fs' cf''" .
  have A: "cf'' = cf @ map (\<lambda>p. file_record (the (file_content fs p)) p)
                 (filter (\<lambda>p. file_content fs p \<noteq> None) (glob_all fs d))"
    and B: "\<And>q. q \<notin> set (glob_all fs d) \<Longrightarrow> \<not> prefix storage_root_path q \<Longrightarrow> lookup fs' q = lookup fs q"
    and C: "\<And>p data. p \<in> set (glob_all fs d) \<Longrightarrow> file_content fs p = Some data \<Longrightarrow>
           exists fs' (storage_root_path @ [stored_name data p])"
    and D: "store_ok fs \<longrightarrow> store_ok fs'"
    and E: "\<And>q. prefix storage_root_path q \<Longrightarrow> exists fs q \<Longrightarrow> lookup fs' q = lookup fs q"
    using m unfolding moved_def by blast+
  have dir': "is_dir fs' d" by (rule rmtree_lookup(1)[OF rm])
  have rl: "\<And>q. lookup fs'' q = (if q = [] \<or> is_anchor q then Some Dir
                         else if prefix d q then None else lookup fs' q)"
    by (rule rmtree_lookup(2)[OF rm])
  have keep: "lookup fs'' q = lookup fs' q" if "\<not> prefix d q" for q
    using rl[of q] that by (auto simp: lookup_def)
  have dir: "is_dir fs d"
  proof (cases "is_dir fs d")
    case True
    then show ?thesis .
  next
    case False
    then have "glob_all fs d = []" by (simp add: glob_all_def)
    with ml have "fs' = fs" by simp
    with dir' show ?thesis by simp
  qed
  have F: "\<forall>q. \<not> prefix d q \<and> \<not> prefix storage_root_path q \<longrightarrow> file_content fs'' q = file_content fs q"
  proof (intro allI impI)
    fix q assume q: "\<not> prefix d q \<and> \<not> prefix storage_root_path q"
    then have "q \<notin> set (glob_all fs d)"
      using glob_all_under[of q fs d] by (auto simp: strict_prefix_def)
    then have "lookup fs' q = lookup fs q" using B q by blast
    then show "file_content fs'' q = file_content fs q"
      using keep[of q] q by (simp add: file_content_def)
  qed
  have G: "\<forall>p data. strict_prefix d p \<and> file_content fs p = Some data \<longrightarrow>
           exists fs'' (storage_root_path @ [stored_name data p])"
  proof (intro allI impI)
    fix p data assume p: "strict_prefix d p \<and> file_content fs p = Some data"
    then have "p \<in> set (glob_all fs d)"
      using glob_all_complete[OF dir, of p] by simp
    then have "exists fs' (storage_root_path @ [stored_name data p])"
      using C p by blast
    moreover have "\<not> prefix d (storage_root_path @ [stored_name data p])"
      by (rule nst2) simp
    ultimately show "exists fs'' (storage_root_path @ [stored_name data p])"
      using keep by (simp add: exists_def)
  qed
  have H: "store_ok fs \<longrightarrow> store_ok fs''"
  proof
    assume "store_ok fs"
    then have ok: "store_ok fs'" using D by blast
    show "store_ok fs''"
      unfolding store_ok_def
    proof (intro allI impI)
      fix n b assume h: "file_content fs'' (storage_root_path @ [n]) = Some b"
      have "\<not> prefix d (storage_root_path @ [n])" by (rule nst2) simp
      then have "file_content fs' (storage_root_path @ [n]) = Some b"
        using h keep by (simp add: file_content_def)
      with ok show "n = hexdigest (sha1 b) @ suffix_of n" by (simp add: store_ok_def)
    qed
  qed
  have I: "\<forall>q. prefix storage_root_path q \<and> exists fs q \<longrightarrow>
           file_content fs'' q = file_content fs q \<and> exists fs'' q"
  proof (intro allI impI)
    fix q assume q: "prefix storage_root_path q \<and> exists fs q"
    then have 1: "lookup fs' q = lookup fs q" using E by blast
    have "\<not> prefix d q" using nst2 q by blast
    then have "lookup fs'' q = lookup fs q" using keep 1 by simp
    then show "file_content fs'' q = file_content fs q \<and> exists fs'' q"
      using q by (simp add: file_content_def exists_def)
  qed
  have J: "\<forall>q. prefix d q \<longrightarrow> file_content fs'' q = None"
    using rl by (simp add: file_content_def)
  from dir A F G H I J show ?thesis unfolding type_moved_def by blast
qed

lemma type_moved_records:
  assumes "type_moved d fs cf fs' cf'"
  shows "f \<in> set cf' \<longleftrightarrow>
           f \<in> set cf \<or> (\<exists>p data. file_content fs p = Some data \<and> strict_prefix d p
                                   \<and> f = file_record data p)"
proof -
  from assms have dir: "is_dir fs d"
    and A: "cf' = cf @ map (\<lambda>p. file_record (the (file_content fs p)) p)
                 (filter (\<lambda>p. file_content fs p \<noteq> None) (glob_all fs d))"
    unfolding type_moved_def by blast+
  have "(\<exists>p \<in> set (glob_all fs d). file_content fs p \<noteq> None
            \<and> f = file_record (the (file_content fs p)) p)
        \<longleftrightarrow> (\<exists>p data. file_content fs p = Some data \<and> strict_prefix d p
                                   \<and> f = file_record data p)"
  proof
    assume "\<exists>p \<in> set (glob_all fs d). file_content fs p \<noteq> None
            \<and> f = file_record (the (file_content fs p)) p"
    then obtain p where p: "p \<in> set (glob_all fs d)" "file_content fs p \<noteq> None"
      "f = file_record (the (file_content fs p)) p" by blast
    then obtain data where "file_content fs p = Some data" by auto
    with p glob_all_under[OF p(1)]
    show "\<exists>p data. file_content fs p = Some data \<and> strict_prefix d p \<and> f = file_record data p"
      by auto
  next
    assume "\<exists>p data. file_content fs p = Some data \<and> strict_prefix d p \<and> f = file_record data p"
    then obtain p data where p: "file_content fs p = Some data" "strict_prefix d p"
      "f = file_record data p" by blast
    then have "p \<in> set (glob_all fs d)"
      using glob_all_complete[OF dir, of p] by simp
    with p show "\<exists>p \<in> set (glob_all fs d). file_content fs p \<noteq> None
            \<and> f = file_record (the (file_content fs p)) p"
      by auto
  qed
  then show ?thesis unfolding A by auto
qed

lemma work_dirs:
  "joinpath final_path ''Level'' = [''final'', ''Level'']"
  "joinpath final_path ''Pack'' = [''final'', ''Pack'']"
  by (simp_all add: path_defs)

lemma move_files_props:
  assumes mf: "move_files fs = Inr (fs', converted_files)"
    and wf: "wf_files fs"
  shows "(\<forall>f. f \<in> set converted_files \<longleftrightarrow>
             (\<exists>p data. file_content fs p = Some data
                \<and> (strict_prefix (joinpath final_path ''Level'') p
                    \<or> strict_prefix (joinpath final_path ''Pack'') p)
                \<and> f = file_record data p))
     \<and> (\<forall>p data. file_content fs p = Some data
            \<and> (strict_prefix (joinpath final_path ''Level'') p
                \<or> strict_prefix (joinpath final_path ''Pack'') p)
          \<longrightarrow> exists fs' (storage_root_path @ [stored_name data p]) \<and> file_content fs' p = None)
     \<and> (store_ok fs \<longrightarrow> store_ok fs')
     \<and> (\<forall>n b. file_content fs (storage_root_path @ [n]) = Some b
            \<longrightarrow> file_content fs' (storage_root_path @ [n]) = Some b)"
proof -
  let ?L = "joinpath final_path ''Level''" and ?P = "joinpath final_path ''Pack''"
  from mf obtain fs0 fs1 cf1 where
    mk: "mkdir fs storage_root_path = Inr fs0"
    and t1: "move_type (fs0, []) ''Level'' = Inr (fs1, cf1)"
    and t2: "move_type (fs1, cf1) ''Pack'' = Inr (fs', converted_files)"
    unfolding move_files_def by (auto simp: bind_eq_Inr)
  have c0: "\<And>q. file_content fs0 q = file_content fs q"
    by (rule mkdir_file_content[OF mk])
  have incL: "\<not> prefix ?L storage_root_path" "\<not> prefix storage_root_path ?L"
    and incP: "\<not> prefix ?P storage_root_path" "\<not> prefix storage_root_path ?P"
    and LP: "\<not> prefix ?L ?P" "\<not> prefix ?P ?L"
    by (simp_all add: work_dirs storage_root_path_eq)
  have wf0: "\<forall>p. strict_prefix ?L p \<and> file_content fs0 p \<noteq> None \<longrightarrow> CHR ''/'' \<notin> set (name p)"
    using wf c0 by (simp add: wf_files_def)
  have m1: "type_moved ?L fs0 [] fs1 cf1"
    by (rule move_type_moved[OF t1 refl incL wf0])
  have underP: "\<not> prefix ?L q \<and> \<not> prefix storage_root_path q" if "prefix ?P q" for q
  proof -
    have "\<not> prefix ?L q"
      using that LP prefix_same_cases by blast
    moreover have "\<not> prefix storage_root_path q"
      using that incP prefix_same_cases by blast
    ultimately show ?thesis by simp
  qed
  have c1: "file_content fs1 q = file_content fs q" if "prefix ?P q" for q
    using m1 underP[OF that] c0 unfolding type_moved_def by simp
  have wf1: "\<forall>p. strict_prefix ?P p \<and> file_content fs1 p \<noteq> None \<longrightarrow> CHR ''/'' \<notin> set (name p)"
  proof (intro allI impI)
    fix p assume p: "strict_prefix ?P p \<and> file_content fs1 p \<noteq> None"
    then have "prefix ?P p" by (simp add: strict_prefix_def)
    then have "file_content fs p \<noteq> None" using c1 p by simp
    then show "CHR ''/'' \<notin> set (name p)" using wf by (simp add: wf_files_def)
  qed
  have m2: "type_moved ?P fs1 cf1 fs' converted_files"
    by (rule move_type_moved[OF t2 refl incP wf1])
  have ok2: "store_ok fs \<longrightarrow> store_ok fs'"
  proof
    assume ok: "store_ok fs"
    have ok0: "store_ok fs0" using ok c0 by (simp add: store_ok_def)
    have ok1: "store_ok fs1" using m1 ok0 unfolding type_moved_def by blast
    show "store_ok fs'" using m2 ok1 unfolding type_moved_def by blast
  qed
  have S1: "\<And>q. prefix storage_root_path q \<Longrightarrow> exists fs0 q \<Longrightarrow>
             file_content fs1 q = file_content fs0 q \<and> exists fs1 q"
    using m1 unfolding type_moved_def by blast
  have S2: "\<And>q. prefix storage_root_path q \<Longrightarrow> exists fs1 q \<Longrightarrow>
             file_content fs' q = file_content fs1 q \<and> exists fs' q"
    using m2 unfolding type_moved_def by blast
  have 1: "\<forall>f. f \<in> set converted_files \<longleftrightarrow>
             (\<exists>p data. file_content fs p = Some data
                \<and> (strict_prefix ?L p \<or> strict_prefix ?P p) \<and> f = file_record data p)"
  proof
    fix f
    have a: "f \<in> set cf1 \<longleftrightarrow> (\<exists>p data. file_content fs p = Some data \<and> strict_prefix ?L p
                                   \<and> f = file_record data p)"
      using type_moved_records[OF m1, of f] c0 by simp
    have "(\<exists>p data. file_content fs1 p = Some data \<and> strict_prefix ?P p \<and> f = file_record data p)
        \<longleftrightarrow> (\<exists>p data. file_content fs p = Some data \<and> strict_prefix ?P p \<and> f = file_record data p)"
      using c1 by (metis strict_prefix_def)
    then have "f \<in> set converted_files \<longleftrightarrow> f \<in> set cf1 \<or>
        (\<exists>p data. file_content fs p = Some data \<and> strict_prefix ?P p \<and> f = file_record data p)"
      using type_moved_records[OF m2, of f] by simp
    with a show "f \<in> set converted_files \<longleftrightarrow>
             (\<exists>p data. file_content fs p = Some data
                \<and> (strict_prefix ?L p \<or> strict_prefix ?P p) \<and> f = file_record data p)"
      by blast
  qed
  have 2: "\<forall>p data. file_content fs p = Some data
            \<and> (strict_prefix ?L p \<or> strict_prefix ?P p)
          \<longrightarrow> exists fs' (storage_root_path @ [stored_name data p]) \<and> file_content fs' p = None"
  proof (intro allI impI)
    fix p data
    assume h: "file_content fs p = Some data \<and> (strict_prefix ?L p \<or> strict_prefix ?P p)"
    let ?dst = "storage_root_path @ [stored_name data p]"
    from h show "exists fs' ?dst \<and> file_content fs' p = None"
    proof (elim conjE disjE)
      assume d: "file_content fs p = Some data" and u: "strict_prefix ?L p"
      have "exists fs1 ?dst" using m1 d u c0 unfolding type_moved_def by simp
      then have e: "exists fs' ?dst" using S2[of ?dst] by simp
      have pl: "prefix ?L p" using u by (simp add: strict_prefix_def)
      then have "file_content fs1 p = None" using m1 unfolding type_moved_def by blast
      moreover have "\<not> prefix ?P p \<and> \<not> prefix storage_root_path p"
        using pl LP incL prefix_same_cases by blast
      ultimately have "file_content fs' p = None" using m2 unfolding type_moved_def by simp
      with e show ?thesis by simp
    next
      assume d: "file_content fs p = Some data" and u: "strict_prefix ?P p"
      have pp: "prefix ?P p" using u by (simp add: strict_prefix_def)
      have "file_content fs1 p = Some data" using c1[OF pp] d by simp
      then have e: "exists fs' ?dst" using m2 u unfolding type_moved_def by blast
      have "file_content fs' p = None" using m2 pp unfolding type_moved_def by blast
      with e show ?thesis by simp
    qed
  qed
  have 6: "\<forall>n b. file_content fs (storage_root_path @ [n]) = Some b
            \<longrightarrow> file_content fs' (storage_root_path @ [n]) = Some b"
  proof (intro allI impI)
    fix n b assume h: "file_content fs (storage_root_path @ [n]) = Some b"
    let ?q = "storage_root_path @ [n]"
    have f0: "file_content fs0 ?q = Some b" using h c0 by simp
    then have "exists fs0 ?q" by (simp add: exists_def file_content_Some)
    then have f1: "file_content fs1 ?q = Some b \<and> exists fs1 ?q" using S1[of ?q] f0 by simp
    then show "file_content fs' ?q = Some b" using S2[of ?q] by simp
  qed
  from 1 2 ok2 6 show ?thesis by blast
qed

subsection \<open>The names of stored files\<close>

text \<open>
  Claim C6, as the script has it. When the move into the store succeeds, from a tree whose
  file names contain no separator and whose store holds only files named by the digest of
  their bytes followed by their suffix: there is a File record exactly for every file under
  the two working directories, and its stored name is the 40-digit hexadecimal SHA-1 digest
  of the bytes of the file followed by the suffix of the original name; a file of that name
  is in the store afterwards and the working file is gone; the stored path is the same for
  two files with the same bytes and the same suffix, whatever their names; no two files of
  the store have the same bytes and the same suffix; and every file that was already in the
  store is still there with its bytes. Files with the same bytes and different suffixes
  are stored under different names.
\<close>

theorem store_names:
  assumes mf: "move_files fs = Inr (fs', converted_files)"
    and wf: "wf_files fs" and ok: "store_ok fs"
  shows "(\<forall>f. f \<in> set converted_files \<longleftrightarrow>
             (\<exists>p data. file_content fs p = Some data
                \<and> (strict_prefix (joinpath final_path ''Level'') p
                    \<or> strict_prefix (joinpath final_path ''Pack'') p)
                \<and> f = \<lparr>file_id = as_posix (drop (length final_path) p),
                        RealPath = hexdigest (sha1 data) @ path_suffix p,
                        CorrectHashPath = hexdigest (sha1 data) @ path_suffix p\<rparr>))
     \<and> (\<forall>p data. file_content fs p = Some data
            \<and> (strict_prefix (joinpath final_path ''Level'') p
                \<or> strict_prefix (joinpath final_path ''Pack'') p)
          \<longrightarrow> exists fs' (storage_root_path @ [hexdigest (sha1 data) @ path_suffix p])
              \<and> file_content fs' p = None)
     \<and> (\<forall>p q data. path_suffix p = path_suffix q
            \<longrightarrow> file_hash_path data p = file_hash_path data q)
     \<and> (\<forall>n1 n2 b. file_content fs' (storage_root_path @ [n1]) = Some b
            \<and> file_content fs' (storage_root_path @ [n2]) = Some b
            \<and> suffix_of n1 = suffix_of n2 \<longrightarrow> n1 = n2)
     \<and> (\<forall>n b. file_content fs (storage_root_path @ [n]) = Some b
            \<longrightarrow> file_content fs' (storage_root_path @ [n]) = Some b)"
proof -
  note p = move_files_props[OF mf wf, unfolded file_record_def stored_name_def]
  have 3: "\<forall>p q data. path_suffix p = path_suffix q
            \<longrightarrow> file_hash_path data p = file_hash_path data q"
    by (simp add: file_hash_path_def)
  have ok2: "store_ok fs'" using p ok by blast
  have 5: "\<forall>n1 n2 b. file_content fs' (storage_root_path @ [n1]) = Some b
            \<and> file_content fs' (storage_root_path @ [n2]) = Some b
            \<and> suffix_of n1 = suffix_of n2 \<longrightarrow> n1 = n2"
  proof (intro allI impI)
    fix n1 n2 b
    assume h: "file_content fs' (storage_root_path @ [n1]) = Some b
            \<and> file_content fs' (storage_root_path @ [n2]) = Some b
            \<and> suffix_of n1 = suffix_of n2"
    have s: "\<And>n b. file_content fs' (storage_root_path @ [n]) = Some b
               \<Longrightarrow> n = hexdigest (sha1 b) @ suffix_of n"
      using ok2 unfolding store_ok_def by blast
    have e1: "n1 = hexdigest (sha1 b) @ suffix_of n1" using s h by blast
    have e2: "n2 = hexdigest (sha1 b) @ suffix_of n2" using s h by blast
    have "n1 = hexdigest (sha1 b) @ suffix_of n1" by (rule e1)
    also have "\<dots> = hexdigest (sha1 b) @ suffix_of n2" using h by simp
    also have "\<dots> = n2" by (rule e2[symmetric])
    finally show "n1 = n2" .
  qed
  from p 3 5 show ?thesis by blast
qed

lemma hexdigest_append_eq:
  "hexdigest h1 @ e1 = hexdigest h2 @ e2 \<longleftrightarrow> hexdigest h1 = hexdigest h2 \<and> e1 = e2"
  by (simp add: hexdigest_length)

lemma hexdigest_append_short:
  "length s < 40 \<Longrightarrow> hexdigest h @ e \<noteq> s" "length s < 40 \<Longrightarrow> s \<noteq> hexdigest h @ e"
  using hexdigest_length[of h] by auto

lemma file_hash_path_simp:
  "CHR ''/'' \<notin> set (name p) \<Longrightarrow>
   file_hash_path data p = [''final'', ''storage'', hexdigest (sha1 data) @ path_suffix p]"
  using file_hash_path_eq(1)[of p data] by (simp add: storage_root_path_eq stored_name_def)

lemmas store_defs = move_files_def move_type_def move_file_def glob_all_def entries_def
  rmtree_def rename_def relative_to_def as_posix_def path_suffix_def suffix_of_def
  file_content_def storage_root_path_eq file_hash_path_simp hexdigest_append_eq
  hexdigest_append_short

lemma fs_s_moved:
  "move_files fs_s = Inr
     ([([''final''], Dir), ([''final'', ''storage''], Dir),
       ([''final'', ''storage'', hexdigest (sha1 [1]) @ ''.jpg''], File [1]),
       ([''final'', ''storage'', hexdigest (sha1 [1]) @ ''.png''], File [1])],
      [\<lparr>file_id = ''Level/x/a.jpg'', RealPath = hexdigest (sha1 [1]) @ ''.jpg'',
         CorrectHashPath = hexdigest (sha1 [1]) @ ''.jpg''\<rparr>,
       \<lparr>file_id = ''Level/x/b.png'', RealPath = hexdigest (sha1 [1]) @ ''.png'',
         CorrectHashPath = hexdigest (sha1 [1]) @ ''.png''\<rparr>])"
  by (simp add: fs_s_def store_defs path_defs fs_defs upt_rec)

















lemma file_content_in: "file_content fs p = Some b \<Longrightarrow> (p, File b) \<in> set fs"
  by (auto simp: file_content_def lookup_def split: if_splits option.splits node.splits
      dest: map_of_SomeD)

lemma wf_filesI:
  assumes "list_all (\<lambda>(p, n). CHR ''/'' \<notin> set (name p)) fs"
  shows "wf_files fs"
  unfolding wf_files_def
proof (intro allI impI)
  fix p assume "file_content fs p \<noteq> None"
  then obtain b where "file_content fs p = Some b" by blast
  then have "(p, File b) \<in> set fs" by (rule file_content_in)
  with assms show "CHR ''/'' \<notin> set (name p)" by (auto simp: list_all_iff)
qed

lemma store_okI:
  assumes "list_all (\<lambda>(p, n). \<not> prefix storage_root_path p) fs"
  shows "store_ok fs"
  unfolding store_ok_def
proof (intro allI impI)
  fix n b assume "file_content fs (storage_root_path @ [n]) = Some b"
  then have "(storage_root_path @ [n], File b) \<in> set fs" by (rule file_content_in)
  with assms have "\<not> prefix storage_root_path (storage_root_path @ [n])"
    by (auto simp: list_all_iff)
  then show "n = hexdigest (sha1 b) @ suffix_of n" by simp
qed

lemma fs_d_moved:
  "move_files fs_d = Inr
     ([([''final''], Dir), ([''final'', ''storage''], Dir),
       ([''final'', ''storage'', hexdigest (sha1 [1]) @ ''.jpg''], File [1])],
      [\<lparr>file_id = ''Level/x/a.jpg'', RealPath = hexdigest (sha1 [1]) @ ''.jpg'',
         CorrectHashPath = hexdigest (sha1 [1]) @ ''.jpg''\<rparr>,
       \<lparr>file_id = ''Level/x/b.jpg'', RealPath = hexdigest (sha1 [1]) @ ''.jpg'',
         CorrectHashPath = hexdigest (sha1 [1]) @ ''.jpg''\<rparr>])"
  by (simp add: fs_d_def store_defs path_defs fs_defs upt_rec)

lemma fs_d_ok: "wf_files fs_d" "store_ok fs_d"
  by (rule wf_filesI, simp add: fs_d_def name_def is_anchor_def)
     (rule store_okI, simp add: fs_d_def storage_root_path_eq)

theorem store_names_witness:
  "wf_files fs_d \<and> store_ok fs_d
   \<and> (\<exists>fs' converted_files. move_files fs_d = Inr (fs', converted_files)
        \<and> map RealPath converted_files
            = [hexdigest (sha1 [1]) @ ''.jpg'', hexdigest (sha1 [1]) @ ''.jpg'']
        \<and> exists fs' (storage_root_path @ [hexdigest (sha1 [1]) @ ''.jpg''])
        \<and> file_content fs' [''final'', ''Level'', ''x'', ''b.jpg''] = None)"
proof -
  obtain fs' converted_files where m: "move_files fs_d = Inr (fs', converted_files)"
    and r: "map RealPath converted_files
            = [hexdigest (sha1 [1]) @ ''.jpg'', hexdigest (sha1 [1]) @ ''.jpg'']"
    using fs_d_moved by simp
  have c: "file_content fs_d [''final'', ''Level'', ''x'', ''b.jpg''] = Some [1]"
    by (simp add: fs_d_def file_content_def lookup_def is_anchor_def)
  have p: "strict_prefix (joinpath final_path ''Level'') [''final'', ''Level'', ''x'', ''b.jpg'']"
    by (simp add: work_dirs strict_prefix_def)
  have s: "path_suffix [''final'', ''Level'', ''x'', ''b.jpg''] = ''.jpg''"
    by (simp add: path_suffix_def suffix_of_def name_def is_anchor_def)
  note t = store_names[OF m fs_d_ok]
  from t have "\<forall>p data. file_content fs_d p = Some data
            \<and> (strict_prefix (joinpath final_path ''Level'') p
                \<or> strict_prefix (joinpath final_path ''Pack'') p)
          \<longrightarrow> exists fs' (storage_root_path @ [hexdigest (sha1 data) @ path_suffix p])
              \<and> file_content fs' p = None"
    by blast
  with c p have "exists fs' (storage_root_path
                   @ [hexdigest (sha1 [1]) @ path_suffix [''final'', ''Level'', ''x'', ''b.jpg'']])
     \<and> file_content fs' [''final'', ''Level'', ''x'', ''b.jpg''] = None"
    by blast
  then have e: "exists fs' (storage_root_path @ [hexdigest (sha1 [1]) @ ''.jpg''])"
    and g: "file_content fs' [''final'', ''Level'', ''x'', ''b.jpg''] = None"
    unfolding s by blast+
  show ?thesis
    by (intro conjI exI) (rule fs_d_ok(1), rule fs_d_ok(2), rule m, rule r, rule e, rule g)
qed

theorem store_dedup_counterexample:
  "\<not> isl (move_files fs_s)
   \<and> file_content fs_s [''final'', ''Level'', ''x'', ''a.jpg''] = Some [1]
   \<and> file_content fs_s [''final'', ''Level'', ''x'', ''b.png''] = Some [1]
   \<and> file_content (fst (projr (move_files fs_s)))
        (storage_root_path @ [hexdigest (sha1 [1]) @ ''.jpg'']) = Some [1]
   \<and> file_content (fst (projr (move_files fs_s)))
        (storage_root_path @ [hexdigest (sha1 [1]) @ ''.png'']) = Some [1]
   \<and> hexdigest (sha1 [1]) @ ''.jpg'' \<noteq> hexdigest (sha1 [1]) @ ''.png''
   \<and> map RealPath (snd (projr (move_files fs_s)))
        = [hexdigest (sha1 [1]) @ ''.jpg'', hexdigest (sha1 [1]) @ ''.png'']"
  unfolding fs_s_moved
  by (simp add: fs_s_def file_content_def lookup_def is_anchor_def storage_root_path_eq
      hexdigest_append_eq)


lemma convert_Inr:
  assumes "convert json_songlist json_packlist level_count pack_count clock fs = Inr (fs', commands)"
  shows "\<exists>song_bytes songs fs1 converted_songs level_identifiers pack_bytes packs fs2
            converted_packs converted_files.
           read_file fs song_list_path = Inr song_bytes
         \<and> json_songlist song_bytes = Some songs
         \<and> convert_songs fs [] Map.empty (level_count + 1) songs
             = Inr (fs1, converted_songs, level_identifiers)
         \<and> read_file fs1 pack_list_path = Inr pack_bytes
         \<and> json_packlist pack_bytes = Some packs
         \<and> convert_packs clock level_identifiers fs1 [] (pack_count + 1) packs
             = Inr (fs2, converted_packs)
         \<and> move_files fs2 = Inr (fs', converted_files)
         \<and> commands = map AddLevel converted_songs @ map AddPack converted_packs
                        @ map AddFile converted_files"
proof -
  from assms obtain song_bytes where 1: "read_file fs song_list_path = Inr song_bytes"
    and a: "(case json_songlist song_bytes of
        None \<Rightarrow> Inl JSONDecodeError
      | Some songs \<Rightarrow>
     bind (convert_songs fs [] Map.empty (level_count + 1) songs)
       (\<lambda>(fs1, converted_songs, level_identifiers).
     bind (read_file fs1 pack_list_path) (\<lambda>pack_bytes.
     (case json_packlist pack_bytes of
        None \<Rightarrow> Inl JSONDecodeError
      | Some packs \<Rightarrow>
     bind (convert_packs clock level_identifiers fs1 [] (pack_count + 1) packs)
       (\<lambda>(fs2, converted_packs).
     bind (move_files fs2) (\<lambda>(fs3, converted_files).
     Inr (fs3, update_database converted_songs converted_packs converted_files))))))) = Inr (fs', commands)"
    unfolding convert_def bind_eq_Inr by blast
  from a obtain songs where 2: "json_songlist song_bytes = Some songs"
    by (cases "json_songlist song_bytes") auto
  from a[unfolded 2 option.case bind_eq_Inr] obtain st where
    3: "convert_songs fs [] Map.empty (level_count + 1) songs = Inr st"
    and b: "(case st of (fs1, converted_songs, level_identifiers) \<Rightarrow>
     bind (read_file fs1 pack_list_path) (\<lambda>pack_bytes.
     (case json_packlist pack_bytes of
        None \<Rightarrow> Inl JSONDecodeError
      | Some packs \<Rightarrow>
     bind (convert_packs clock level_identifiers fs1 [] (pack_count + 1) packs)
       (\<lambda>(fs2, converted_packs).
     bind (move_files fs2) (\<lambda>(fs3, converted_files).
     Inr (fs3, update_database converted_songs converted_packs converted_files)))))) = Inr (fs', commands)"
    by blast
  obtain fs1 converted_songs level_identifiers where
    st: "st = (fs1, converted_songs, level_identifiers)" by (cases st)
  from b[unfolded st prod.case bind_eq_Inr] obtain pack_bytes where
    4: "read_file fs1 pack_list_path = Inr pack_bytes"
    and c: "(case json_packlist pack_bytes of
        None \<Rightarrow> Inl JSONDecodeError
      | Some packs \<Rightarrow>
     bind (convert_packs clock level_identifiers fs1 [] (pack_count + 1) packs)
       (\<lambda>(fs2, converted_packs).
     bind (move_files fs2) (\<lambda>(fs3, converted_files).
     Inr (fs3, update_database converted_songs converted_packs converted_files)))) = Inr (fs', commands)"
    by blast
  from c obtain packs where 5: "json_packlist pack_bytes = Some packs"
    by (cases "json_packlist pack_bytes") auto
  from c[unfolded 5 option.case bind_eq_Inr] obtain st2 where
    6: "convert_packs clock level_identifiers fs1 [] (pack_count + 1) packs = Inr st2"
    and d: "(case st2 of (fs2, converted_packs) \<Rightarrow>
     bind (move_files fs2) (\<lambda>(fs3, converted_files).
     Inr (fs3, update_database converted_songs converted_packs converted_files))) = Inr (fs', commands)"
    by blast
  obtain fs2 converted_packs where st2: "st2 = (fs2, converted_packs)" by (cases st2)
  from d[unfolded st2 prod.case bind_eq_Inr] obtain st3 where
    7: "move_files fs2 = Inr st3"
    and e: "(case st3 of (fs3, converted_files) \<Rightarrow>
     Inr (fs3, update_database converted_songs converted_packs converted_files))
        = (Inr (fs', commands) :: error + fs \<times> command list)"
    by blast
  obtain fs3 converted_files where st3: "st3 = (fs3, converted_files)" by (cases st3)
  from e have 8: "fs3 = fs'"
    and 9: "commands = map AddLevel converted_songs @ map AddPack converted_packs
                        @ map AddFile converted_files"
    by (simp_all add: st3 update_database_def)
  show ?thesis
    using 1 2 3[unfolded st] 4 5 6[unfolded st2] 7[unfolded st3 8] 9 by blast
qed

subsection \<open>File references when the records are emitted\<close>






lemma fs_u_run:
  "\<exists>fs' l1 l2 p1 p2 f1 f2 f3 f4 f5 f6.
     convert (\<lambda>_. Some [song_u, song_v]) (\<lambda>_. Some [pack_m, pack_v]) 10 20 (\<lambda>_. 1000) fs_u
       = Inr (fs', [AddLevel l1, AddLevel l2, AddPack p1, AddPack p2,
                    AddFile f1, AddFile f2, AddFile f3, AddFile f4, AddFile f5, AddFile f6])"
  by (simp add: convert_def update_database_def convert_song_def convert_difficulty_def
      song_m_def song_u_def song_v_def pack_m_def pack_v_def fs_u_def path_defs fs_defs py_defs
      upt_rec pack_defs add_level_identifier_def song_list_path_def pack_list_path_def store_defs)

subsection \<open>Record ids\<close>

text \<open>
  Claim C4. In a run that succeeds, the commands are the Level records, then the Pack
  records, then the File records. There is one Level record for every song of the song list,
  in the order of the list, and their ids are \<open>level_count + 1\<close>, \<open>level_count + 2\<close>, ..., where
  \<open>level_count\<close> is the number the catalog reported before the first record was built; there
  is one Pack record for every entry of the pack list, in the order of the list, with the ids
  \<open>pack_count + 1\<close>, \<open>pack_count + 2\<close>, .... So the ids of the Level records of a run are
  distinct, and so are those of its Pack records.
\<close>

theorem ids_increase:
  assumes "convert json_songlist json_packlist level_count pack_count clock fs = Inr (fs', commands)"
  shows "\<exists>song_bytes songs fs1 pack_bytes packs converted_songs converted_packs converted_files.
           read_file fs song_list_path = Inr song_bytes
         \<and> json_songlist song_bytes = Some songs
         \<and> read_file fs1 pack_list_path = Inr pack_bytes
         \<and> json_packlist pack_bytes = Some packs
         \<and> commands = map AddLevel converted_songs @ map AddPack converted_packs
                        @ map AddFile converted_files
         \<and> map Identifier converted_songs = map new_id songs
         \<and> map rec_id converted_songs = map (\<lambda>k. level_count + 1 + int k) [0..<length songs]
         \<and> distinct (map rec_id converted_songs)
         \<and> map Identifier converted_packs = map pack_new_id packs
         \<and> map rec_id converted_packs = map (\<lambda>k. pack_count + 1 + int k) [0..<length packs]
         \<and> distinct (map rec_id converted_packs)"
proof -
  from convert_Inr[OF assms] obtain song_bytes songs fs1 converted_songs level_identifiers
      pack_bytes packs fs2 converted_packs converted_files where
    1: "read_file fs song_list_path = Inr song_bytes"
    and 2: "json_songlist song_bytes = Some songs"
    and 3: "convert_songs fs [] Map.empty (level_count + 1) songs
             = Inr (fs1, converted_songs, level_identifiers)"
    and 4: "read_file fs1 pack_list_path = Inr pack_bytes"
    and 5: "json_packlist pack_bytes = Some packs"
    and 6: "convert_packs clock level_identifiers fs1 [] (pack_count + 1) packs
             = Inr (fs2, converted_packs)"
    and 8: "commands = map AddLevel converted_songs @ map AddPack converted_packs
                        @ map AddFile converted_files"
    by blast
  from convert_songs_Inr[OF 3] have
    ls: "list_all2 (\<lambda>s r. \<exists>fa fb k. convert_song fa k s = Inr (fb, r)) songs converted_songs"
    and ids: "map rec_id converted_songs = map (\<lambda>k. level_count + 1 + int k) [0..<length songs]"
    by simp_all
  from convert_packs_Inr[OF 6] have
    lp: "list_all2 (\<lambda>p r. \<exists>fa fb k. convert_pack clock level_identifiers fa k p = Inr (fb, r))
            packs converted_packs"
    and ip: "map rec_id converted_packs = map (\<lambda>k. pack_count + 1 + int k) [0..<length packs]"
    by simp_all
  have "list_all2 (\<lambda>s r. Identifier r = new_id s) songs converted_songs"
  proof (rule list_all2_mono[OF ls])
    fix s r assume "\<exists>fa fb k. convert_song fa k s = Inr (fb, r)"
    then obtain fa fb k where "convert_song fa k s = Inr (fb, r)" by blast
    from convert_song_Inr[OF this] show "Identifier r = new_id s" by blast
  qed
  then have ns: "map Identifier converted_songs = map new_id songs"
    by (induction rule: list_all2_induct) simp_all
  have "list_all2 (\<lambda>p r. Identifier r = pack_new_id p) packs converted_packs"
  proof (rule list_all2_mono[OF lp])
    fix p r assume "\<exists>fa fb k. convert_pack clock level_identifiers fa k p = Inr (fb, r)"
    then obtain fa fb k where "convert_pack clock level_identifiers fa k p = Inr (fb, r)" by blast
    from convert_pack_Inr[OF this] show "Identifier r = pack_new_id p" by blast
  qed
  then have np: "map Identifier converted_packs = map pack_new_id packs"
    by (induction rule: list_all2_induct) simp_all
  have ds: "distinct (map rec_id converted_songs)" unfolding ids by (rule distinct_ids)
  have dp: "distinct (map rec_id converted_packs)" unfolding ip by (rule distinct_ids)
  show ?thesis
    by (intro exI conjI) (rule 1, rule 2, rule 4, rule 5, rule 8, rule ns, rule ids, rule ds,
        rule np, rule ip, rule dp)
qed

theorem ids_increase_witness:
  "\<exists>fs' l1 l2 p1 p2 files.
     convert (\<lambda>_. Some [song_u, song_v]) (\<lambda>_. Some [pack_m, pack_v]) 10 20 (\<lambda>_. 1000) fs_u
       = Inr (fs', [AddLevel l1, AddLevel l2, AddPack p1, AddPack p2] @ map AddFile files)
     \<and> map rec_id [l1, l2] = [11, 12] \<and> map Identifier [l1, l2] = [''single.s'', ''p1.t'']
     \<and> map rec_id [p1, p2] = [21, 22]"
proof -
  obtain fs' l1 l2 p1 p2 f1 f2 f3 f4 f5 f6 where
    h: "convert (\<lambda>_. Some [song_u, song_v]) (\<lambda>_. Some [pack_m, pack_v]) 10 20 (\<lambda>_. 1000) fs_u
       = Inr (fs', [AddLevel l1, AddLevel l2, AddPack p1, AddPack p2,
                    AddFile f1, AddFile f2, AddFile f3, AddFile f4, AddFile f5, AddFile f6])"
    using fs_u_run by blast
  from ids_increase[OF h] obtain songs packs converted_songs converted_packs converted_files where
    s: "Some [song_u, song_v] = Some songs" and p: "Some [pack_m, pack_v] = Some packs"
    and c: "[AddLevel l1, AddLevel l2, AddPack p1, AddPack p2,
             AddFile f1, AddFile f2, AddFile f3, AddFile f4, AddFile f5, AddFile f6]
            = map AddLevel converted_songs @ map AddPack converted_packs
                        @ map AddFile converted_files"
    and n: "map Identifier converted_songs = map new_id songs"
    and i: "map rec_id converted_songs = map (\<lambda>k. 10 + 1 + int k) [0..<length songs]"
    and j: "map rec_id converted_packs = map (\<lambda>k. 20 + 1 + int k) [0..<length packs]"
    by blast
  from s have s': "songs = [song_u, song_v]" by simp
  from p have p': "packs = [pack_m, pack_v]" by simp
  from i have ls: "length converted_songs = 2"
    using length_map[of rec_id converted_songs] unfolding s' by simp
  from j have lp: "length converted_packs = 2"
    using length_map[of rec_id converted_packs] unfolding p' by simp
  from ls obtain a b where cs: "converted_songs = [a, b]"
    by (auto simp: length_Suc_conv numeral_2_eq_2)
  from lp obtain c d where cp: "converted_packs = [c, d]"
    by (auto simp: length_Suc_conv numeral_2_eq_2)
  from c have e: "a = l1" "b = l2" "c = p1" "d = p2"
    and f: "[AddFile f1, AddFile f2, AddFile f3, AddFile f4, AddFile f5, AddFile f6]
              = map AddFile converted_files"
    by (simp_all add: cs cp)
  have u: "[0..<2] = [0, 1]" by (simp add: upt_rec)
  have 1: "map rec_id [l1, l2] = [11, 12]"
    using i unfolding s' cs e by (simp add: u)
  have 2: "map Identifier [l1, l2] = [''single.s'', ''p1.t'']"
    using n unfolding s' cs e by (simp add: new_id_def song_u_def song_v_def song_m_def)
  have 3: "map rec_id [p1, p2] = [21, 22]"
    using j unfolding p' cp e by (simp add: u)
  have 0: "convert (\<lambda>_. Some [song_u, song_v]) (\<lambda>_. Some [pack_m, pack_v]) 10 20 (\<lambda>_. 1000) fs_u
       = Inr (fs', [AddLevel l1, AddLevel l2, AddPack p1, AddPack p2] @ map AddFile converted_files)"
    using h f by simp
  show ?thesis
    by (intro exI conjI) (rule 0, rule 1, rule 2, rule 3)
qed

subsection \<open>The file object of a pack and the loop over its entries\<close>



































subsection \<open>Extracted files\<close>




subsection \<open>Entries that reach past the end of their pack\<close>





end
